theory Spec2Isabelle
  imports Complex_Main
begin

section \<open>The tensor primitives the notebook calls\<close>

text \<open>
  The notebook is a thin script over a tensor library. The few library operations it
  calls are written out here with the behaviour the library documents, on a small tensor
  type: a shape and the elements in row-major order. A float32 number is the real number
  it denotes. Where a stored result depends on float32 rounding (the mean that decides a
  label), the library's function is a parameter of the model, and float32 rounding is
  defined below for the examples; the rounding of scores and losses is outside this
  development. Every exception the script can meet is a value of \<open>error\<close>.
\<close>

datatype error =
  RuntimeError | IndexError | TypeError | AttributeError | ValueError
  | ZeroDivisionError | UnboundLocalError | FileNotFoundError | KeyError

record 'a tensor =
  shape :: "nat list"
  data :: "'a list"

text \<open>\<^verbatim>\<open>torch.rand(n, m)\<close>: an n-by-m tensor filled from the random source, which is
  the function \<open>rnd\<close> from the flat position to the number drawn there.\<close>

definition torch_rand :: "(nat \<Rightarrow> real) \<Rightarrow> nat \<Rightarrow> nat \<Rightarrow> real tensor" where
  "torch_rand rnd n m = \<lparr>shape = [n, m], data = map rnd [0..<n * m]\<rparr>"

text \<open>\<^verbatim>\<open>t.reshape(d1, ..., dk, -1)\<close>: the last dimension is inferred. The library
  refuses the call when the product of the given dimensions is zero (with no elements the
  inferred dimension is ambiguous, with some elements the shape is invalid) and when that
  product does not divide the number of elements.\<close>

definition reshape_infer :: "'a tensor \<Rightarrow> nat list \<Rightarrow> error + 'a tensor" where
  "reshape_infer t dims =
     (let newsize = prod_list dims; numel = length (data t) in
      if newsize = 0 then Inl RuntimeError
      else if numel mod newsize \<noteq> 0 then Inl RuntimeError
      else Inr \<lparr>shape = dims @ [numel div newsize], data = data t\<rparr>)"

text \<open>The \<open>n\<close> consecutive rows of length \<open>k\<close> of a flat list.\<close>

definition rows :: "nat \<Rightarrow> nat \<Rightarrow> 'a list \<Rightarrow> 'a list list" where
  "rows n k xs = map (\<lambda>i. take k (drop (i * k) xs)) [0..<n]"

text \<open>\<^verbatim>\<open>t.mean(-1)\<close>: the mean over the last dimension, which disappears from the
  shape. The library computes the mean of a row in float32, accumulating the sum in an
  order of its own; \<open>fmean\<close> is that function, from a row to its float32 mean. (Over a
  last dimension of size zero the library's mean is not a number; the notebook's last
  dimension is 64.)\<close>

definition mean_last :: "(real list \<Rightarrow> real) \<Rightarrow> real tensor \<Rightarrow> real tensor" where
  "mean_last fmean t =
     (if shape t = [] then t
      else let k = last (shape t); outer = butlast (shape t) in
        \<lparr>shape = outer, data = map fmean (rows (prod_list outer) k (data t))\<rparr>)"

text \<open>The index of the maximum of a list; of several maximal values the first one.\<close>

fun argmax_list :: "'a::linorder list \<Rightarrow> nat" where
  "argmax_list [] = 0"
| "argmax_list [x] = 0"
| "argmax_list (x # y # ys) =
     (let j = argmax_list (y # ys) in if (y # ys) ! j \<le> x then 0 else Suc j)"

text \<open>\<^verbatim>\<open>t.argmax(1)\<close> on a matrix: the index of the maximum of every row. A matrix
  without columns is refused, as is a tensor with fewer than two dimensions; tensors of
  higher rank do not occur in the notebook and are not modelled.\<close>

definition argmax_dim1 :: "'a::linorder tensor \<Rightarrow> error + nat tensor" where
  "argmax_dim1 t =
     (case shape t of
        [n, c] \<Rightarrow>
          if c = 0 then Inl IndexError
          else Inr \<lparr>shape = [n], data = map argmax_list (rows n c (data t))\<rparr>
      | _ \<Rightarrow> Inl IndexError)"

text \<open>\<^verbatim>\<open>len(t)\<close>: the size of the first dimension; a tensor without dimensions has no
  length.\<close>

definition tensor_len :: "'a tensor \<Rightarrow> error + nat" where
  "tensor_len t = (case shape t of [] \<Rightarrow> Inl TypeError | n # _ \<Rightarrow> Inr n)"

text \<open>\<^verbatim>\<open>t[i]\<close> for an integer \<open>i\<close>: the slice at position \<open>i\<close> of the first
  dimension. As everywhere in Python a negative index counts from the end; an index
  outside \<open>-n \<le> i < n\<close> raises.\<close>

definition tensor_index :: "'a tensor \<Rightarrow> int \<Rightarrow> error + 'a tensor" where
  "tensor_index t i =
     (case shape t of
        [] \<Rightarrow> Inl IndexError
      | n # rest \<Rightarrow>
          (let j = (if i < 0 then i + int n else i); stride = prod_list rest in
           if 0 \<le> j \<and> j < int n
           then Inr \<lparr>shape = rest, data = take stride (drop (nat j * stride) (data t))\<rparr>
           else Inl IndexError))"


section \<open>The synthetic dataset\<close>

text \<open>
  \<^verbatim>\<open>
  class MyDataset(Dataset):
      def __init__(self, N):
          self.samples = torch.rand(N, 256)
          _labels = self.samples.reshape(N, 4, -1).mean(-1)  # (N, 4)
          self.labels = _labels.argmax(1)  # (N,)
      def __len__(self):
          return len(self.samples)
      def __getitem__(self, index):
          return self.samples[index], self.labels[index]
  \<close>
\<close>

record MyDataset =
  samples :: "real tensor"
  labels :: "nat tensor"

definition MyDataset_init ::
  "(nat \<Rightarrow> real) \<Rightarrow> (real list \<Rightarrow> real) \<Rightarrow> nat \<Rightarrow> error + MyDataset" where
  "MyDataset_init rnd fmean N =
     (let smp = torch_rand rnd N 256 in
      case reshape_infer smp [N, 4] of
        Inl e \<Rightarrow> Inl e
      | Inr r \<Rightarrow>
          (case argmax_dim1 (mean_last fmean r) of
             Inl e \<Rightarrow> Inl e
           | Inr l \<Rightarrow> Inr \<lparr>samples = smp, labels = l\<rparr>))"

definition MyDataset_len :: "MyDataset \<Rightarrow> error + nat" where
  "MyDataset_len ds = tensor_len (samples ds)"

definition MyDataset_getitem :: "MyDataset \<Rightarrow> int \<Rightarrow> error + (real tensor \<times> nat tensor)" where
  "MyDataset_getitem ds index =
     (case tensor_index (samples ds) index of
        Inl e \<Rightarrow> Inl e
      | Inr s \<Rightarrow>
          (case tensor_index (labels ds) index of
             Inl e \<Rightarrow> Inl e
           | Inr l \<Rightarrow> Inr (s, l)))"

text \<open>The (sample, label) pair stored at position \<open>k\<close> of a dataset: row \<open>k\<close> of the
  samples and element \<open>k\<close> of the labels.\<close>

definition item_at :: "MyDataset \<Rightarrow> nat \<Rightarrow> real tensor \<times> nat tensor" where
  "item_at ds k =
     (\<lparr>shape = [256], data = take 256 (drop (k * 256) (data (samples ds)))\<rparr>,
      \<lparr>shape = [], data = [data (labels ds) ! k]\<rparr>)"



definition first_max_index :: "real list \<Rightarrow> nat \<Rightarrow> bool" where
  "first_max_index ms k \<longleftrightarrow>
     k < length ms \<and> list_all (\<lambda>m. m \<le> ms ! k) ms \<and> list_all (\<lambda>m. m < ms ! k) (take k ms)"


section \<open>Single precision\<close>

text \<open>
  A float32 number has 24 significant bits. \<open>round32\<close> takes a real number to the nearest
  float32 number, a tie to the one whose last bit is even; the spacing of the float32
  numbers around \<open>x\<close> is \<open>ulp32 x\<close>. (The limits of the exponent are not modelled: the
  numbers rounded here lie between a quarter and 64.) The numbers that \<^verbatim>\<open>torch.rand\<close>
  draws are float32 numbers in [0, 1), multiples of \<open>1 / 2 ^ 24\<close>.
\<close>

definition ulp32 :: "real \<Rightarrow> real" where
  "ulp32 x = 2 powr (of_int \<lfloor>log 2 \<bar>x\<bar>\<rfloor> - 23)"

definition round_half_even :: "real \<Rightarrow> int" where
  "round_half_even r =
     (let f = \<lfloor>r\<rfloor> in
      if r - of_int f < 1 / 2 then f
      else if 1 / 2 < r - of_int f then f + 1
      else if even f then f else f + 1)"

definition round32 :: "real \<Rightarrow> real" where
  "round32 x = (if x = 0 then 0 else ulp32 x * of_int (round_half_even (x / ulp32 x)))"

text \<open>
  Two ways a library can take the float32 mean of a row. It can add the elements in an
  accumulator wide enough to hold the sum exactly and round once at the end. Or it can
  add in float32, rounding after every addition; the order and the grouping of the
  additions (one after the other, in pairs, in lanes) is then a tree with the elements
  at its leaves. (The mean of no elements, not a number in the library, is not needed
  here and is left as 0.)
\<close>

definition mean32_once :: "real list \<Rightarrow> real" where
  "mean32_once xs = round32 (sum_list xs / real (length xs))"

datatype sumtree = Leaf real | Node sumtree sumtree

fun leaves :: "sumtree \<Rightarrow> real list" where
  "leaves (Leaf x) = [x]"
| "leaves (Node a b) = leaves a @ leaves b"

fun sum32 :: "sumtree \<Rightarrow> real" where
  "sum32 (Leaf x) = x"
| "sum32 (Node a b) = round32 (sum32 a + sum32 b)"

text \<open>The tree of adding one after the other, from the left.\<close>

fun seq_tree :: "sumtree \<Rightarrow> real list \<Rightarrow> sumtree" where
  "seq_tree t [] = t"
| "seq_tree t (y # ys) = seq_tree (Node t (Leaf y)) ys"


definition mean32_sequential :: "real list \<Rightarrow> real" where
  "mean32_sequential xs =
     (case xs of
        [] \<Rightarrow> 0
      | x # ys \<Rightarrow> round32 (sum32 (seq_tree (Leaf x) ys) / real (length xs)))"



section \<open>The data loader\<close>

text \<open>
  Modelled from the spec: the Data Loader is a class of the framework, and the notebook
  only configures two of them (40000 and 10000 items, batch size 256, the training one
  shuffled and dropping its last batch). The spec's words are: a batch is a grouping of
  \<open>B\<close> items; with drop-last any remainder smaller than \<open>B\<close> is discarded, otherwise the
  final partial batch is kept; an invalid batch size is refused at construction. One pass
  walks the indices in the order the sampler gives (the identity, or a fresh permutation
  when shuffling), fills a batch, emits it when it holds \<open>B\<close> indices, and at the end
  emits what is left unless it is empty or drop-last is set.
\<close>

fun batch_sampler :: "nat \<Rightarrow> bool \<Rightarrow> 'a list \<Rightarrow> 'a list \<Rightarrow> 'a list list" where
  "batch_sampler B drop_last batch [] =
     (if batch \<noteq> [] \<and> \<not> drop_last then [batch] else [])"
| "batch_sampler B drop_last batch (idx # rest) =
     (if length (batch @ [idx]) = B
      then (batch @ [idx]) # batch_sampler B drop_last [] rest
      else batch_sampler B drop_last (batch @ [idx]) rest)"

text \<open>Modelled from the spec: one pass of a loader of the given batch size over the
  indices, the construction refusing a batch size that is not positive.\<close>

definition DataLoader_pass :: "nat \<Rightarrow> bool \<Rightarrow> 'a list \<Rightarrow> error + 'a list list" where
  "DataLoader_pass batch_size drop_last indices =
     (if batch_size = 0 then Inl ValueError
      else Inr (batch_sampler batch_size drop_last [] indices))"


section \<open>The model\<close>

text \<open>
  \<^verbatim>\<open>
  class MyModel(nn.Module):
      def __init__(self, in_dim, out_dim):
          super().__init__()
          self.net = nn.Sequential(
              nn.Linear(in_dim, 128),
              nn.ReLU(),
              nn.Dropout(0.2),
              nn.Linear(128, out_dim)
          )
      def forward(self, x):
          x = x - 0.5
          return self.net(x)
  \<close>
  A linear layer holds a weight matrix of shape (out, in) and a bias of shape (out); its
  initial values come from the initialiser functions \<open>w0\<close> and \<open>b0\<close>. Dropout draws one
  Bernoulli number per unit from the random generator, which is the stream \<open>g\<close> of the
  draws still to come (\<open>True\<close>: the unit is dropped); a layer returns the generator it
  leaves behind.
\<close>

type_synonym rng = "nat \<Rightarrow> bool"

datatype layer =
  Linear nat nat "real tensor" "real tensor"
  | ReLU
  | Dropout real

definition nn_Linear :: "(nat \<Rightarrow> real) \<Rightarrow> (nat \<Rightarrow> real) \<Rightarrow> nat \<Rightarrow> nat \<Rightarrow> layer" where
  "nn_Linear w0 b0 in_features out_features =
     Linear in_features out_features
       \<lparr>shape = [out_features, in_features], data = map w0 [0..<out_features * in_features]\<rparr>
       \<lparr>shape = [out_features], data = map b0 [0..<out_features]\<rparr>"

definition dot :: "real list \<Rightarrow> real list \<Rightarrow> real" where
  "dot u v = sum_list (map2 (*) u v)"

fun layer_forward :: "bool \<Rightarrow> layer \<Rightarrow> rng \<Rightarrow> real list \<Rightarrow> (error + real list) \<times> rng" where
  "layer_forward tr (Linear i o' W b) g x =
     (if length x \<noteq> i then (Inl RuntimeError, g)
      else (Inr (map2 (\<lambda>row bj. dot row x + bj) (rows o' i (data W)) (data b)), g))"
| "layer_forward tr ReLU g x = (Inr (map (max 0) x), g)"
| "layer_forward tr (Dropout p) g x =
     (if tr
      then (Inr (map2 (\<lambda>j v. if g j then 0 else v / (1 - p)) [0..<length x] x),
            \<lambda>j. g (j + length x))
      else (Inr x, g))"

text \<open>\<^verbatim>\<open>nn.Sequential\<close>: the layers in turn, each on the output of the one before.\<close>

fun Sequential_forward :: "bool \<Rightarrow> layer list \<Rightarrow> rng \<Rightarrow> real list \<Rightarrow> (error + real list) \<times> rng" where
  "Sequential_forward tr [] g x = (Inr x, g)"
| "Sequential_forward tr (l # ls) g x =
     (case layer_forward tr l g x of
        (Inl e, g') \<Rightarrow> (Inl e, g')
      | (Inr y, g') \<Rightarrow> Sequential_forward tr ls g' y)"

record MyModel =
  net :: "layer list"
  training :: bool

definition MyModel_init ::
  "(nat \<Rightarrow> real) \<Rightarrow> (nat \<Rightarrow> real) \<Rightarrow> (nat \<Rightarrow> real) \<Rightarrow> (nat \<Rightarrow> real) \<Rightarrow> nat \<Rightarrow> nat \<Rightarrow> MyModel" where
  "MyModel_init w1 b1 w2 b2 in_dim out_dim =
     \<lparr>net = [nn_Linear w1 b1 in_dim 128, ReLU, Dropout 0.2, nn_Linear w2 b2 128 out_dim],
      training = True\<rparr>"

definition MyModel_forward :: "MyModel \<Rightarrow> rng \<Rightarrow> real list \<Rightarrow> (error + real list) \<times> rng" where
  "MyModel_forward m g x = Sequential_forward (training m) (net m) g (map (\<lambda>v. v - 0.5) x)"

text \<open>\<^verbatim>\<open>model(samples)\<close> on a batch, a matrix with one row per sample: the layers act on
  every row, and dropout draws the units of the first row first. A row that a layer
  refuses decides the error.\<close>

fun MyModel_call :: "MyModel \<Rightarrow> rng \<Rightarrow> real list list \<Rightarrow> (error + real list list) \<times> rng" where
  "MyModel_call m g [] = (Inr [], g)"
| "MyModel_call m g (x # xs) =
     (case MyModel_forward m g x of
        (Inl e, g') \<Rightarrow> (Inl e, g')
      | (Inr y, g') \<Rightarrow>
          (case MyModel_call m g' xs of
             (Inl e, g'') \<Rightarrow> (Inl e, g'')
           | (Inr ys, g'') \<Rightarrow> (Inr (y # ys), g'')))"

text \<open>\<^verbatim>\<open>model.train()\<close> and \<^verbatim>\<open>model.eval()\<close> set the mode flag.\<close>

definition MyModel_train :: "MyModel \<Rightarrow> MyModel" where
  "MyModel_train m = m\<lparr>training := True\<rparr>"

definition MyModel_eval :: "MyModel \<Rightarrow> MyModel" where
  "MyModel_eval m = m\<lparr>training := False\<rparr>"

text \<open>The architecture as the spec words it, unit by unit: the centred input, the 128
  rectified hidden units, the units after dropout, and the raw output scores.\<close>

definition hidden_unit :: "(nat \<Rightarrow> real) \<Rightarrow> (nat \<Rightarrow> real) \<Rightarrow> real list \<Rightarrow> nat \<Rightarrow> real" where
  "hidden_unit w1 b1 x j =
     max 0 ((\<Sum>k<length x. w1 (j * length x + k) * (x ! k - 0.5)) + b1 j)"

definition dropped_unit :: "bool \<Rightarrow> rng \<Rightarrow> (nat \<Rightarrow> real) \<Rightarrow> nat \<Rightarrow> real" where
  "dropped_unit tr g h j = (if tr then (if g j then 0 else h j / (1 - 0.2)) else h j)"

definition output_score :: "(nat \<Rightarrow> real) \<Rightarrow> (nat \<Rightarrow> real) \<Rightarrow> (nat \<Rightarrow> real) \<Rightarrow> nat \<Rightarrow> real" where
  "output_score w2 b2 d i = (\<Sum>j<128. w2 (i * 128 + j) * d j) + b2 i"


section \<open>Running one epoch\<close>

text \<open>
  \<^verbatim>\<open>
  def single_epoch_loop(model, loader, optimizer=None, mode='train'):
      n_samples, n_correct = 0, 0
      for batch in loader:
          samples, labels = batch
          out = model(samples)
          loss = F.cross_entropy(out, labels)  # no explicit softmax on out!
          if mode == 'train':  # don't update if not train
              optimizer.zero_grad()
              loss.backward()
              optimizer.step()
          n_samples += len(samples)
          n_correct += (out.argmax(1) == labels).sum().item()
      return n_correct / n_samples, loss.item()
  \<close>
  The objects the loop works on are kept in one record: the parameters of the model, the
  accumulated gradients, the state of the optimizer, and whatever else the model changes
  when it is called (its random generator, say). The model is the function from the
  parameters, that other state and a batch of samples to the scores, one row per sample;
  it cannot write the parameters. Automatic differentiation is the function \<open>backward\<close>
  from the parameters, the state the forward pass started from, the batch and the
  gradients so far to the new gradients, or to the error it raises (a loss computed
  without gradient tracking has nothing to differentiate). An optimizer is its two
  methods; its step may raise as well, and then leaves parameters and state as they were.
\<close>

record ('p, 'g, 'o, 'r) world =
  params :: 'p
  grads :: 'g
  opt_state :: 'o
  aux :: 'r

record ('p, 'g, 'o) optimizer_obj =
  zero_grad :: "'g \<Rightarrow> 'g"
  step :: "'g \<Rightarrow> 'p \<Rightarrow> 'o \<Rightarrow> error + 'p \<times> 'o"

text \<open>A Python float that may be not-a-number.\<close>

datatype pyfloat = NaN | Finite real

text \<open>\<^verbatim>\<open>F.cross_entropy(out, labels)\<close> with class indices as targets: the batch sizes
  must agree and every label must be a column of the scores; the value is the mean over
  the batch of the negative log-softmax score of the true class, not a number for an
  empty batch.\<close>

definition cross_entropy :: "real list list \<Rightarrow> nat list \<Rightarrow> error + pyfloat" where
  "cross_entropy out lbls =
     (if length out \<noteq> length lbls then Inl ValueError
      else if \<not> list_all2 (\<lambda>row l. l < length row) out lbls then Inl IndexError
      else if out = [] then Inr NaN
      else Inr (Finite
        (sum_list (map2 (\<lambda>row l. ln (sum_list (map exp row)) - row ! l) out lbls)
           / real (length out))))"

text \<open>\<^verbatim>\<open>(out.argmax(1) == labels).sum().item()\<close>\<close>

definition count_correct :: "real list list \<Rightarrow> nat list \<Rightarrow> nat" where
  "count_correct out lbls =
     length (filter (\<lambda>(row, l). argmax_list row = l) (zip out lbls))"

text \<open>The three statements under \<^verbatim>\<open>if mode == 'train'\<close>, with the error that stops them,
  if any, and the objects as the statements leave them. Without an optimizer the first
  statement raises.\<close>

definition backward_pass ::
  "('p \<Rightarrow> 'r \<Rightarrow> 'x list \<Rightarrow> nat list \<Rightarrow> 'g \<Rightarrow> error + 'g) \<Rightarrow>
   ('p, 'g, 'o) optimizer_obj option \<Rightarrow>
   'r \<Rightarrow> 'x list \<Rightarrow> nat list \<Rightarrow> ('p, 'g, 'o, 'r) world \<Rightarrow>
   error option \<times> ('p, 'g, 'o, 'r) world" where
  "backward_pass backward optimizer r0 smp lbls w =
     (case optimizer of
        None \<Rightarrow> (Some AttributeError, w)
      | Some opt \<Rightarrow>
          (let g1 = zero_grad opt (grads w) in
           case backward (params w) r0 smp lbls g1 of
             Inl e \<Rightarrow> (Some e, w\<lparr>grads := g1\<rparr>)
           | Inr g2 \<Rightarrow>
               (case step opt g2 (params w) (opt_state w) of
                  Inl e \<Rightarrow> (Some e, w\<lparr>grads := g2\<rparr>)
                | Inr (p', o') \<Rightarrow> (None, w\<lparr>params := p', grads := g2, opt_state := o'\<rparr>))))"

text \<open>The body of the loop on one batch, carrying \<open>n_samples\<close>, \<open>n_correct\<close> and the
  last \<open>loss\<close> (unbound before the first batch).\<close>

fun loop_batches ::
  "('p \<Rightarrow> 'r \<Rightarrow> 'x list \<Rightarrow> nat list \<Rightarrow> 'g \<Rightarrow> error + 'g) \<Rightarrow>
   ('p \<Rightarrow> 'r \<Rightarrow> 'x list \<Rightarrow> (error + real list list) \<times> 'r) \<Rightarrow>
   ('p, 'g, 'o) optimizer_obj option \<Rightarrow> string \<Rightarrow>
   ('x list \<times> nat list) list \<Rightarrow> nat \<times> nat \<times> pyfloat option \<Rightarrow> ('p, 'g, 'o, 'r) world \<Rightarrow>
   (error + nat \<times> nat \<times> pyfloat option) \<times> ('p, 'g, 'o, 'r) world" where
  "loop_batches backward model optimizer mode [] acc w = (Inr acc, w)"
| "loop_batches backward model optimizer mode ((smp, lbls) # rest) (n_samples, n_correct, loss) w =
     (case model (params w) (aux w) smp of
        (Inl e, r') \<Rightarrow> (Inl e, w\<lparr>aux := r'\<rparr>)
      | (Inr out, r') \<Rightarrow>
          (case cross_entropy out lbls of
             Inl e \<Rightarrow> (Inl e, w\<lparr>aux := r'\<rparr>)
           | Inr l \<Rightarrow>
               (case (if mode = ''train''
                      then backward_pass backward optimizer (aux w) smp lbls (w\<lparr>aux := r'\<rparr>)
                      else (None, w\<lparr>aux := r'\<rparr>)) of
                  (Some e, w') \<Rightarrow> (Inl e, w')
                | (None, w') \<Rightarrow>
                    loop_batches backward model optimizer mode rest
                      (n_samples + length smp, n_correct + count_correct out lbls, Some l) w')))"

text \<open>The whole function. The division is evaluated before \<^verbatim>\<open>loss.item()\<close>, so with no
  sample seen it is the division that raises.\<close>

definition single_epoch_loop ::
  "('p \<Rightarrow> 'r \<Rightarrow> 'x list \<Rightarrow> nat list \<Rightarrow> 'g \<Rightarrow> error + 'g) \<Rightarrow>
   ('p \<Rightarrow> 'r \<Rightarrow> 'x list \<Rightarrow> (error + real list list) \<times> 'r) \<Rightarrow>
   ('x list \<times> nat list) list \<Rightarrow> ('p, 'g, 'o) optimizer_obj option \<Rightarrow> string \<Rightarrow>
   ('p, 'g, 'o, 'r) world \<Rightarrow> (error + real \<times> pyfloat) \<times> ('p, 'g, 'o, 'r) world" where
  "single_epoch_loop backward model loader optimizer mode w =
     (case loop_batches backward model optimizer mode loader (0, 0, None) w of
        (Inl e, w') \<Rightarrow> (Inl e, w')
      | (Inr (n_samples, n_correct, loss), w') \<Rightarrow>
          if n_samples = 0 then (Inl ZeroDivisionError, w')
          else (case loss of
                  None \<Rightarrow> (Inl UnboundLocalError, w')
                | Some l \<Rightarrow> (Inr (real n_correct / real n_samples, l), w')))"

text \<open>What one pass observes, batch by batch: the number of samples, the scores, the
  labels and the loss of every batch that went through, with the parameters as they are
  when the batch is reached, and the error of the first step that raised, if one did
  (the forward call, the loss, or one of the three statements of the training branch).
  The accuracy and the loss of the spec are read off this list.\<close>

fun epoch_trace ::
  "('p \<Rightarrow> 'r \<Rightarrow> 'x list \<Rightarrow> nat list \<Rightarrow> 'g \<Rightarrow> error + 'g) \<Rightarrow>
   ('p \<Rightarrow> 'r \<Rightarrow> 'x list \<Rightarrow> (error + real list list) \<times> 'r) \<Rightarrow>
   ('p, 'g, 'o) optimizer_obj option \<Rightarrow> string \<Rightarrow>
   ('x list \<times> nat list) list \<Rightarrow> ('p, 'g, 'o, 'r) world \<Rightarrow>
   (nat \<times> real list list \<times> nat list \<times> pyfloat) list \<times> error option" where
  "epoch_trace backward model optimizer mode [] w = ([], None)"
| "epoch_trace backward model optimizer mode ((smp, lbls) # rest) w =
     (case model (params w) (aux w) smp of
        (Inl e, r') \<Rightarrow> ([], Some e)
      | (Inr out, r') \<Rightarrow>
          (case cross_entropy out lbls of
             Inl e \<Rightarrow> ([], Some e)
           | Inr l \<Rightarrow>
               (case (if mode = ''train''
                      then backward_pass backward optimizer (aux w) smp lbls (w\<lparr>aux := r'\<rparr>)
                      else (None, w\<lparr>aux := r'\<rparr>)) of
                  (Some e, w') \<Rightarrow> ([], Some e)
                | (None, w') \<Rightarrow>
                    (case epoch_trace backward model optimizer mode rest w' of
                       (tr, err) \<Rightarrow> ((length smp, out, lbls, l) # tr, err)))))"

definition total_samples :: "(nat \<times> real list list \<times> nat list \<times> pyfloat) list \<Rightarrow> nat" where
  "total_samples tr = sum_list (map fst tr)"

definition total_correct :: "(nat \<times> real list list \<times> nat list \<times> pyfloat) list \<Rightarrow> nat" where
  "total_correct tr = sum_list (map (\<lambda>(n, out, lbls, l). count_correct out lbls) tr)"

definition last_loss :: "(nat \<times> real list list \<times> nat list \<times> pyfloat) list \<Rightarrow> pyfloat" where
  "last_loss tr = (case last tr of (n, out, lbls, l) \<Rightarrow> l)"

text \<open>A batch of the data model groups samples with their labels: it has one label per
  sample.\<close>

definition paired_batch :: "'x list \<times> nat list \<Rightarrow> bool" where
  "paired_batch b \<longleftrightarrow> length (fst b) = length (snd b)"


section \<open>Saving and loading a checkpoint\<close>

text \<open>
  \<^verbatim>\<open>
  torch.save({
      "epoch": epoch + 1,
      "model_state_dict": model.state_dict(),
      "optimizer_state_dict": optimizer.state_dict(),
      "best_acc": test_acc
  }, 'ckpt.pt')

  ckpnt = torch.load('ckpt.pt')
  model.load_state_dict(ckpnt["model_state_dict"], strict=True)
  optimizer.load_state_dict(ckpnt["optimizer_state_dict"])
  start_epoch = ckpnt["epoch"]
  val_acc_prev_best = ckpnt['best_acc']
  \<close>
  The checkpoint is a dictionary from strings to values of four kinds. The file system is
  a map from paths to file contents; how the framework writes an object into a file is
  the pair \<open>ser\<close>, \<open>de\<close> of its serialiser and deserialiser, which the functions below take
  as parameters (the deserialiser returns the object or the error it raises on contents
  it cannot read). The state of the optimizer is a value of a type of its own, and its
  state dictionary is that value. The key \<^verbatim>\<open>net.i.weight\<close> of a model's state dictionary
  is written \<open>(i, ''weight'')\<close>.
\<close>

type_synonym state_dict = "((nat \<times> string) \<times> real tensor) list"

datatype 'o ckpt_value =
  IntV int | FloatV real | StateDictV state_dict | OptStateV 'o

definition bind_err :: "error + 'a \<Rightarrow> ('a \<Rightarrow> error + 'b) \<Rightarrow> error + 'b" where
  "bind_err r f = (case r of Inl e \<Rightarrow> Inl e | Inr v \<Rightarrow> f v)"

definition dict_get :: "('k \<rightharpoonup> 'v) \<Rightarrow> 'k \<Rightarrow> error + 'v" where
  "dict_get d k = (case d k of None \<Rightarrow> Inl KeyError | Some v \<Rightarrow> Inr v)"

definition torch_save :: "('c \<Rightarrow> 'b) \<Rightarrow> 'c \<Rightarrow> string \<Rightarrow> (string \<rightharpoonup> 'b) \<Rightarrow> (string \<rightharpoonup> 'b)" where
  "torch_save ser obj path fs = fs(path \<mapsto> ser obj)"

definition torch_load :: "('b \<Rightarrow> error + 'c) \<Rightarrow> string \<Rightarrow> (string \<rightharpoonup> 'b) \<Rightarrow> error + 'c" where
  "torch_load de path fs =
     (case fs path of
        None \<Rightarrow> Inl FileNotFoundError
      | Some bytes \<Rightarrow> de bytes)"

text \<open>\<^verbatim>\<open>model.state_dict()\<close>: the weight and the bias of every linear layer, under the
  position of the layer in the network.\<close>

fun layer_state :: "nat \<Rightarrow> layer \<Rightarrow> state_dict" where
  "layer_state i (Linear a b W c) = [((i, ''weight''), W), ((i, ''bias''), c)]"
| "layer_state i ReLU = []"
| "layer_state i (Dropout p) = []"

fun state_from :: "nat \<Rightarrow> layer list \<Rightarrow> state_dict" where
  "state_from i [] = []"
| "state_from i (l # ls) = layer_state i l @ state_from (Suc i) ls"

definition state_dict :: "MyModel \<Rightarrow> state_dict" where
  "state_dict m = state_from 0 (net m)"

text \<open>\<^verbatim>\<open>model.load_state_dict(sd, strict=True)\<close>: a missing key, an unexpected key and
  a tensor of another shape are refused; otherwise every parameter takes the stored
  value.\<close>

fun load_layer :: "state_dict \<Rightarrow> nat \<Rightarrow> layer \<Rightarrow> layer" where
  "load_layer sd i (Linear a b W c) =
     Linear a b
       (case map_of sd (i, ''weight'') of None \<Rightarrow> W | Some W' \<Rightarrow> W')
       (case map_of sd (i, ''bias'') of None \<Rightarrow> c | Some c' \<Rightarrow> c')"
| "load_layer sd i ReLU = ReLU"
| "load_layer sd i (Dropout p) = Dropout p"

fun load_from :: "state_dict \<Rightarrow> nat \<Rightarrow> layer list \<Rightarrow> layer list" where
  "load_from sd i [] = []"
| "load_from sd i (l # ls) = load_layer sd i l # load_from sd (Suc i) ls"

definition load_state_dict :: "MyModel \<Rightarrow> state_dict \<Rightarrow> error + MyModel" where
  "load_state_dict m sd =
     (if set (map fst sd) \<noteq> set (map fst (state_dict m)) then Inl RuntimeError
      else if list_ex (\<lambda>(k, t). map_option shape (map_of sd k) \<noteq> Some (shape t)) (state_dict m)
      then Inl RuntimeError
      else Inr (m\<lparr>net := load_from sd 0 (net m)\<rparr>))"

text \<open>Two models have the same architecture when their layers agree in everything but
  the numbers stored in the parameters.\<close>

fun layer_arch :: "layer \<Rightarrow> layer" where
  "layer_arch (Linear a b W c) = Linear a b (W\<lparr>data := []\<rparr>) (c\<lparr>data := []\<rparr>)"
| "layer_arch ReLU = ReLU"
| "layer_arch (Dropout p) = Dropout p"

definition same_architecture :: "MyModel \<Rightarrow> MyModel \<Rightarrow> bool" where
  "same_architecture m0 m \<longleftrightarrow> map layer_arch (net m0) = map layer_arch (net m)"

text \<open>The saving half of the cell, at any path (the notebook's is \<^verbatim>\<open>ckpt.pt\<close>).\<close>

definition save_checkpoint ::
  "((string \<rightharpoonup> 'o ckpt_value) \<Rightarrow> 'b) \<Rightarrow> string \<Rightarrow> int \<Rightarrow> MyModel \<Rightarrow> 'o \<Rightarrow> real \<Rightarrow>
   (string \<rightharpoonup> 'b) \<Rightarrow> (string \<rightharpoonup> 'b)" where
  "save_checkpoint ser path epoch model optimizer test_acc fs =
     torch_save ser
       [''epoch'' \<mapsto> IntV (epoch + 1),
        ''model_state_dict'' \<mapsto> StateDictV (state_dict model),
        ''optimizer_state_dict'' \<mapsto> OptStateV optimizer,
        ''best_acc'' \<mapsto> FloatV test_acc]
       path fs"

text \<open>The loading half: the model and the optimizer after their \<^verbatim>\<open>load_state_dict\<close>,
  and the two variables the cell binds. An entry of the wrong kind is refused: the model
  refuses a number as no dictionary (a type error) and the optimizer's dictionary for its
  keys; the optimizer finds no \<^verbatim>\<open>copy\<close> attribute on a number and no \<^verbatim>\<open>param_groups\<close> key
  in a model's dictionary.\<close>

record 'o resumed =
  loaded_model :: MyModel
  loaded_optimizer :: 'o
  start_epoch :: "'o ckpt_value"
  val_acc_prev_best :: "'o ckpt_value"

definition load_checkpoint ::
  "('b \<Rightarrow> error + (string \<rightharpoonup> 'o ckpt_value)) \<Rightarrow> string \<Rightarrow> MyModel \<Rightarrow>
   (string \<rightharpoonup> 'b) \<Rightarrow> error + 'o resumed" where
  "load_checkpoint de path model fs =
     bind_err (torch_load de path fs) (\<lambda>ckpnt.
     bind_err (dict_get ckpnt ''model_state_dict'') (\<lambda>v.
     bind_err (case v of
                 StateDictV sd \<Rightarrow> load_state_dict model sd
               | OptStateV s \<Rightarrow> Inl RuntimeError
               | _ \<Rightarrow> Inl TypeError) (\<lambda>model'.
     bind_err (dict_get ckpnt ''optimizer_state_dict'') (\<lambda>v'.
     bind_err (case v' of
                 OptStateV s \<Rightarrow> Inr s
               | StateDictV sd \<Rightarrow> Inl KeyError
               | _ \<Rightarrow> Inl AttributeError) (\<lambda>optimizer'.
     bind_err (dict_get ckpnt ''epoch'') (\<lambda>e.
     bind_err (dict_get ckpnt ''best_acc'') (\<lambda>b.
       Inr \<lparr>loaded_model = model', loaded_optimizer = optimizer',
            start_epoch = e, val_acc_prev_best = b\<rparr>)))))))"


section \<open>Example inputs\<close>

text \<open>A random source whose second patch is the brightest, and the dataset of one item
  built from it.\<close>

definition example_rnd :: "nat \<Rightarrow> real" where
  "example_rnd k = (if 64 \<le> k \<and> k < 128 then 1 / 2 else 1 / 4)"

definition example_ds :: MyDataset where
  "example_ds = \<lparr>samples = torch_rand example_rnd 1 256, labels = \<lparr>shape = [1], data = [1]\<rparr>\<rparr>"



text \<open>A model with one parameter \<open>p\<close> that scores a number \<open>x\<close> as \<open>[p * x, 1 - p * x]\<close>, a
  differentiation that adds one to the gradient, an optimizer that subtracts the gradient
  from the parameter and counts its steps, and a world to run them in.\<close>

definition example_model :: "real \<Rightarrow> unit \<Rightarrow> real list \<Rightarrow> (error + real list list) \<times> unit" where
  "example_model p r xs = (Inr (map (\<lambda>x. [p * x, 1 - p * x]) xs), r)"

definition example_backward :: "real \<Rightarrow> unit \<Rightarrow> real list \<Rightarrow> nat list \<Rightarrow> real \<Rightarrow> error + real" where
  "example_backward p r xs ls g = Inr (g + 1)"

definition example_optimizer :: "(real, real, nat) optimizer_obj" where
  "example_optimizer = \<lparr>zero_grad = (\<lambda>g. 0), step = (\<lambda>g p s. Inr (p - g, Suc s))\<rparr>"

definition example_world :: "(real, real, nat, unit) world" where
  "example_world = \<lparr>params = 1, grads = 0, opt_state = 0, aux = ()\<rparr>"

definition example_loader :: "(real list \<times> nat list) list" where
  "example_loader = [([1, 0], [0, 0]), ([1], [0])]"

text \<open>A model that returns two rows of scores whatever it is given, and a differentiation
  that finds nothing to differentiate.\<close>

definition two_row_model :: "real \<Rightarrow> unit \<Rightarrow> real list \<Rightarrow> (error + real list list) \<times> unit" where
  "two_row_model p r xs = (Inr [[1, 0], [1, 0]], r)"

definition failing_backward :: "real \<Rightarrow> unit \<Rightarrow> real list \<Rightarrow> nat list \<Rightarrow> real \<Rightarrow> error + real" where
  "failing_backward p r xs ls g = Inl RuntimeError"

text \<open>The model of the notebook's dimensions with simple parameters, and an input.\<close>

definition example_model2 :: MyModel where
  "example_model2 =
     MyModel_init (\<lambda>k. 0) (\<lambda>j. 1) (\<lambda>k. 1 / 128) (\<lambda>i. if i = 0 then - 2 else 3) 256 4"

definition example_input :: "real list" where
  "example_input = replicate 256 (1 / 2)"

text \<open>The world of that model in evaluation mode, without gradients or optimizer.\<close>

definition example_world2 :: "(MyModel, unit, unit, rng) world" where
  "example_world2 =
     \<lparr>params = MyModel_eval example_model2, grads = (), opt_state = (), aux = (\<lambda>j. True)\<rparr>"

text \<open>A freshly initialised model of the same dimensions.\<close>

definition example_fresh :: MyModel where
  "example_fresh = MyModel_init (\<lambda>k. 1 / 2) (\<lambda>j. 0) (\<lambda>k. 0) (\<lambda>i. 0) 256 4"



section \<open>Properties of single precision\<close>

lemma round_half_even_int [simp]: "round_half_even (of_int z) = z"
  by (simp add: round_half_even_def)

lemma ulp32_pos: "0 < ulp32 x"
  by (simp add: ulp32_def)

lemma ulp32_binade:
  assumes "2 powr of_int k \<le> x" and "x < 2 powr of_int (k + 1)"
  shows "ulp32 x = 2 powr of_int (k - 23)"
proof -
  have pos: "0 < x" using assms(1) by (smt (verit) powr_gt_zero)
  have "\<lfloor>log 2 x\<rfloor> = k"
    using floor_log_eq_powr_iff [of x 2 k] pos assms by simp
  then show ?thesis using pos by (simp add: ulp32_def)
qed

lemma binade_exists:
  assumes "0 < (x::real)"
  shows "2 powr of_int \<lfloor>log 2 x\<rfloor> \<le> x \<and> x < 2 powr of_int (\<lfloor>log 2 x\<rfloor> + 1)"
  using floor_log_eq_powr_iff [of x 2 "\<lfloor>log 2 x\<rfloor>"] assms by simp

lemma powr_int_nonneg: "0 \<le> j \<Longrightarrow> (2::real) powr of_int j = 2 ^ nat j"
  by (simp add: powr_real_of_int)

lemma powr_int_neg: "j \<le> 0 \<Longrightarrow> (2::real) powr of_int j = 1 / 2 ^ nat (- j)"
  by (simp add: powr_real_of_int field_simps)

text \<open>A number with at most 24 significant bits is a float32 number: rounding leaves it
  as it is.\<close>

lemma round32_exact:
  assumes "0 < m" and "m < 2 ^ 24"
  shows "round32 (real m / 2 ^ j) = real m / 2 ^ j"
proof -
  let ?x = "real m / 2 ^ j"
  let ?k = "\<lfloor>log 2 ?x\<rfloor>"
  have pos: "0 < ?x" using assms(1) by simp
  note b = binade_exists [OF pos]
  have u: "ulp32 ?x = 2 powr of_int (?k - 23)"
    using ulp32_binade [of ?k ?x] b by simp
  have "?x < 2 ^ 24 / 2 ^ j" using assms(2)
    by (simp add: divide_strict_right_mono) 
  also have "\<dots> = 2 powr 24 / 2 powr (real j)"
    by (simp add: powr_realpow)
  also have "\<dots> = 2 powr of_int (24 - int j)"
    by (simp add: powr_diff)
  finally have "(2::real) powr of_int ?k < 2 powr of_int (24 - int j)"
    using b by linarith
  then have kle: "?k \<le> 23 - int j" by simp
  define U where "U = (2::real) powr of_int (?k - 23)"
  have Upos: "0 < U" by (simp add: U_def)
  have "(2::real) powr of_int (23 - ?k) = 2 powr (- of_int (?k - 23))"
    by (rule arg_cong [where f = "\<lambda>t. 2 powr t"]) simp
  also have "\<dots> = inverse U" unfolding U_def by (rule powr_minus)
  finally have inv: "(2::real) powr of_int (23 - ?k) = 1 / U" by (simp add: inverse_eq_divide)
  have "(2::real) powr of_int (23 - int j - ?k) = 2 powr (of_int (23 - ?k) - real j)"
    by (rule arg_cong [where f = "\<lambda>t. 2 powr t"]) simp
  also have "\<dots> = 2 powr of_int (23 - ?k) / 2 powr real j" by (rule powr_diff)
  also have "\<dots> = (1 / U) / 2 ^ j" by (simp only: inv powr_realpow [OF zero_less_numeral])
  finally have e: "(2::real) powr of_int (23 - int j - ?k) = (1 / U) / 2 ^ j" .
  have "?x / 2 powr of_int (?k - 23) = real m * 2 powr of_int (23 - int j - ?k)"
    unfolding e U_def [symmetric] by simp
  also have "\<dots> = real m * 2 ^ nat (23 - int j - ?k)"
    using kle by (simp only: powr_int_nonneg [of "23 - int j - ?k"] diff_ge_0_iff_ge)
  also have "\<dots> = of_int (int m * 2 ^ nat (23 - int j - ?k))" by simp
  finally have "\<exists>Z. ?x / ulp32 ?x = of_int Z" unfolding u by blast
  then obtain Z where r: "?x / ulp32 ?x = of_int Z" ..
  have ne: "?x \<noteq> 0" using assms(1) by simp
  have "round32 ?x = ulp32 ?x * (?x / ulp32 ?x)"
    unfolding round32_def by (simp only: ne if_False r round_half_even_int)
  also have "\<dots> = ?x" using ulp32_pos [of ?x] by simp
  finally show ?thesis .
qed

lemma round32_down:
  assumes "2 powr of_int k \<le> x" and "x < 2 powr of_int (k + 1)"
    and "x = (of_int Z + d) * 2 powr of_int (k - 23)"
    and "0 \<le> d" and "d < 1 / 2 \<or> (d = 1 / 2 \<and> even Z)"
  shows "round32 x = of_int Z * 2 powr of_int (k - 23)"
proof -
  define u where "u = (2::real) powr of_int (k - 23)"
  have upos: "0 < u" by (simp add: u_def)
  have ulp: "ulp32 x = u" unfolding u_def by (rule ulp32_binade [OF assms(1,2)])
  have pos: "0 < x" using assms(1) by (smt (verit) powr_gt_zero)
  have q: "x / u = of_int Z + d" using assms(3) upos by (simp add: u_def)
  have fl: "\<lfloor>of_int Z + d\<rfloor> = Z" using assms(4,5) by linarith
  have rhe: "round_half_even (of_int Z + d) = Z"
    using assms(4,5) by (auto simp: round_half_even_def fl Let_def)
  have "round32 x = u * of_int (round_half_even (x / u))"
    using pos by (simp add: round32_def ulp)
  also have "\<dots> = u * of_int Z" unfolding q by (simp only: rhe)
  finally show ?thesis by (simp add: u_def mult.commute)
qed


lemma round32_tie_binade:
  assumes "2 ^ (k + 1) \<le> m" and "m < 2 ^ (k + 2)" and "k \<le> 22"
  shows "round32 (real m / 2 + 1 / 2 ^ 24) = real m / 2"
proof -
  let ?x = "real m / 2 + 1 / 2 ^ 24"
  have rm: "(2::real) ^ (k + 1) \<le> real m" "real m + 1 \<le> 2 ^ (k + 2)"
    using assms(1,2)
    by (metis of_nat_le_iff of_nat_numeral of_nat_power,
        metis Suc_leI of_nat_Suc of_nat_le_iff of_nat_numeral of_nat_power add.commute plus_1_eq_Suc)
  have u: "(2::real) powr of_int (int k - 23) = 1 / 2 ^ (23 - k)"
    using powr_int_neg [of "int k - 23"] assms(3) by (simp add: nat_diff_distrib')
  have p23: "(2::real) ^ (23 - k) = 2 * 2 ^ (22 - k)"
  proof -
    have "23 - k = Suc (22 - k)" using assms(3) by simp
    then show ?thesis by simp
  qed
  have p24: "(2::real) ^ (k + 1) * 2 ^ (23 - k) = 2 ^ 24"
    using assms(3) by (simp add: power_add [symmetric])
  have "round32 ?x = of_int (int m * 2 ^ (22 - k)) * 2 powr of_int (int k - 23)"
  proof (rule round32_down [where d = "1 / 2 ^ (k + 1)"])
    have "(2::real) ^ k \<le> real m / 2" using rm(1) by simp
    also have "\<dots> \<le> ?x" by simp
    finally show "2 powr of_int (int k) \<le> ?x" by (simp add: powr_realpow)
    have "?x < real m / 2 + 1 / 2" by simp
    also have "\<dots> \<le> 2 ^ (k + 1)" using rm(2) by simp
    finally have "?x < 2 ^ (k + 1)" .
    moreover have "(2::real) powr of_int (int k + 1) = 2 ^ (k + 1)"
      using powr_realpow [of 2 "k + 1"] by (simp add: add.commute)
    ultimately show "?x < 2 powr of_int (int k + 1)" by (simp only:)
    have "(of_int (int m * 2 ^ (22 - k)) + 1 / 2 ^ (k + 1)) * (1 / 2 ^ (23 - k))
        = real m * 2 ^ (22 - k) / 2 ^ (23 - k) + 1 / (2 ^ (k + 1) * 2 ^ (23 - k) :: real)"
      by (simp add: field_simps)
    also have "\<dots> = ?x" unfolding p24 unfolding p23 by simp
    finally show "?x = (of_int (int m * 2 ^ (22 - k)) + 1 / 2 ^ (k + 1)) * 2 powr of_int (int k - 23)"
      unfolding u by simp
    show "(0::real) \<le> 1 / 2 ^ (k + 1)" by simp
    show "(1 / 2 ^ (k + 1) :: real) < 1 / 2 \<or> ((1 / 2 ^ (k + 1) :: real) = 1 / 2 \<and> even (int m * 2 ^ (22 - k)))"
    proof (cases k)
      case 0
      then show ?thesis by simp
    next
      case (Suc k')
      have "(4::real) \<le> 2 ^ (k + 1)" unfolding Suc
        using power_increasing [of 2 "Suc k' + 1" "2::real"] by simp
      then have "(1 / 2 ^ (k + 1) :: real) \<le> 1 / 4" by (simp add: field_simps)
      then show ?thesis by simp
    qed
  qed
  also have "\<dots> = real m * 2 ^ (22 - k) / 2 ^ (23 - k)" unfolding u by simp
  also have "\<dots> = real m / 2" unfolding p23 by simp
  finally show ?thesis .
qed

lemma round32_tie:
  assumes "2 \<le> m" and "m \<le> 64"
  shows "round32 (real m / 2 + 1 / 2 ^ 24) = real m / 2"
proof -
  consider "m < 4" | "4 \<le> m" "m < 8" | "8 \<le> m" "m < 16" | "16 \<le> m" "m < 32"
    | "32 \<le> m" "m < 64" | "m = 64"
    using assms by linarith
  then show ?thesis
  proof cases
    case 1 then show ?thesis using round32_tie_binade [of 0 m] assms by simp
  next
    case 2 then show ?thesis using round32_tie_binade [of 1 m] by simp
  next
    case 3 then show ?thesis using round32_tie_binade [of 2 m] by simp
  next
    case 4 then show ?thesis using round32_tie_binade [of 3 m] by simp
  next
    case 5 then show ?thesis using round32_tie_binade [of 4 m] by simp
  next
    case 6 then show ?thesis using round32_tie_binade [of 5 m] by simp
  qed
qed

lemma round32_half: "round32 (1 / 2) = 1 / 2"
  using round32_exact [of 1 1] by simp

lemma round32_quarter: "round32 (1 / 4) = 1 / 4"
  using round32_exact [of 1 2] by simp

lemma leaves_nonempty: "leaves t \<noteq> []"
  by (induction t) simp_all

lemma sum32_halves_tree:
  assumes "set (leaves t) \<subseteq> {1 / 2, 1 / 2 + 1 / 2 ^ 24}"
    and "count_list (leaves t) (1 / 2 + 1 / 2 ^ 24) \<le> 1"
    and "length (leaves t) \<le> 64"
  shows "sum32 t = (if leaves t = [1 / 2 + 1 / 2 ^ 24] then 1 / 2 + 1 / 2 ^ 24
                    else real (length (leaves t)) / 2)"
  using assms
proof (induction t)
  case (Leaf x)
  then show ?case by auto
next
  case (Node a b)
  let ?c = "1 / 2 + 1 / 2 ^ 24 :: real"
  let ?la = "leaves a" and ?lb = "leaves b"
  have cnt: "count_list ?la ?c + count_list ?lb ?c \<le> 1" using Node.prems(2) by simp
  have len: "length ?la + length ?lb \<le> 64" using Node.prems(3) by simp
  have pa: "1 \<le> length ?la" and pb: "1 \<le> length ?lb"
    using leaves_nonempty [of a] leaves_nonempty [of b] by (simp_all add: Suc_le_eq)
  have sa: "sum32 a = (if ?la = [?c] then ?c else real (length ?la) / 2)"
    using Node.IH(1) Node.prems cnt len by simp
  have sb: "sum32 b = (if ?lb = [?c] then ?c else real (length ?lb) / 2)"
    using Node.IH(2) Node.prems cnt len by simp
  have two: "leaves (Node a b) \<noteq> [?c]"
    using pa pb by (auto simp: append_eq_Cons_conv)
  have "round32 (sum32 a + sum32 b) = real (length ?la + length ?lb) / 2"
  proof (cases "?la = [?c]")
    case True
    then have "?lb \<noteq> [?c]" using cnt by auto
    then have e: "sum32 a + sum32 b = real (length ?lb + 1) / 2 + 1 / 2 ^ 24"
      using True sa sb by (simp add: field_simps)
    have "round32 (sum32 a + sum32 b) = round32 (real (length ?lb + 1) / 2 + 1 / 2 ^ 24)"
      by (simp only: e)
    also have "\<dots> = real (length ?lb + 1) / 2"
      using pb len True by (intro round32_tie) simp_all
    also have "\<dots> = real (length ?la + length ?lb) / 2" using True by simp
    finally show ?thesis .
  next
    case False
    note na = False
    show ?thesis
    proof (cases "?lb = [?c]")
      case True
      then have e: "sum32 a + sum32 b = real (length ?la + 1) / 2 + 1 / 2 ^ 24"
        using na sa sb by (simp add: field_simps)
      have "round32 (sum32 a + sum32 b) = round32 (real (length ?la + 1) / 2 + 1 / 2 ^ 24)"
        by (simp only: e)
      also have "\<dots> = real (length ?la + 1) / 2"
        using pa len True by (intro round32_tie) simp_all
      also have "\<dots> = real (length ?la + length ?lb) / 2" using True by simp
      finally show ?thesis .
    next
      case False
      then have e: "sum32 a + sum32 b = real (length ?la + length ?lb) / 2 ^ 1"
        using na sa sb by (simp add: field_simps)
      have "round32 (sum32 a + sum32 b) = round32 (real (length ?la + length ?lb) / 2 ^ 1)"
        by (simp only: e)
      also have "\<dots> = real (length ?la + length ?lb) / 2 ^ 1"
        using pa len by (intro round32_exact) auto
      finally show ?thesis by simp
    qed
  qed
  then show ?case using two by simp
qed

lemma leaves_seq_tree: "leaves (seq_tree t ys) = leaves t @ ys"
  by (induction ys arbitrary: t) simp_all

text \<open>Whatever the order and the grouping of the additions, the float32 mean of 64
  numbers that are one half, but for one that is the next float32 number, is one half.\<close>

lemma mean32_any_tree:
  assumes "set (leaves t) \<subseteq> {1 / 2, 1 / 2 + 1 / 2 ^ 24}"
    and "count_list (leaves t) (1 / 2 + 1 / 2 ^ 24) \<le> 1"
    and "length (leaves t) = 64"
  shows "round32 (sum32 t / 64) = 1 / 2"
proof -
  have "leaves t \<noteq> [1 / 2 + 1 / 2 ^ 24]" using assms(3) by auto
  then have "sum32 t = 32"
    using sum32_halves_tree [OF assms(1,2)] assms(3) by simp
  then show ?thesis by (simp add: round32_half)
qed

lemma mean32_sequential_halves:
  assumes "set xs \<subseteq> {1 / 2, 1 / 2 + 1 / 2 ^ 24}"
    and "count_list xs (1 / 2 + 1 / 2 ^ 24) \<le> 1"
    and "length xs = 64"
  shows "mean32_sequential xs = 1 / 2"
proof -
  obtain x ys where xs: "xs = x # ys" using assms(3) by (cases xs) auto
  have l: "leaves (seq_tree (Leaf x) ys) = xs" by (simp add: leaves_seq_tree xs)
  have "round32 (sum32 (seq_tree (Leaf x) ys) / 64) = 1 / 2"
    by (rule mean32_any_tree) (simp_all only: l assms)
  then show ?thesis using assms(3) by (simp add: mean32_sequential_def xs)
qed


section \<open>Properties of the synthetic dataset\<close>

subsection \<open>Rows and the first maximum\<close>


lemma length_rows: "length (rows n k xs) = n"
  by (simp add: rows_def)



lemma MyDataset_init_pos:
  assumes "0 < N"
  shows "MyDataset_init rnd fmean N =
     Inr \<lparr>samples = \<lparr>shape = [N, 256], data = map rnd [0..<N * 256]\<rparr>,
          labels = \<lparr>shape = [N],
            data = map argmax_list (rows N 4 (map fmean (rows (N * 4) 64 (map rnd [0..<N * 256]))))\<rparr>\<rparr>"
proof -
  have d: "N * 256 div (N * 4) = 64" using assms by simp
  have m: "N * 256 mod (N * 4) = 0" using assms by simp
  show ?thesis
    using assms
    by (simp add: MyDataset_init_def torch_rand_def reshape_infer_def mean_last_def
        argmax_dim1_def Let_def d m)
qed

lemma MyDataset_init_zero: "MyDataset_init rnd fmean 0 = Inl RuntimeError"
  by (simp add: MyDataset_init_def torch_rand_def reshape_infer_def)

lemma MyDataset_init_Inr: "MyDataset_init rnd fmean N = Inr ds \<Longrightarrow> 0 < N"
  by (cases N) (simp_all add: MyDataset_init_zero)



lemma argmax_list_lt: "xs \<noteq> [] \<Longrightarrow> argmax_list xs < length xs"
  by (induction xs rule: argmax_list.induct) (auto simp: Let_def)

lemma argmax_list_max: "j < length xs \<Longrightarrow> xs ! j \<le> xs ! argmax_list xs"
proof (induction xs arbitrary: j rule: argmax_list.induct)
  case 1 then show ?case by simp
next
  case (2 x) then show ?case by simp
next
  case (3 x y ys)
  show ?case
  proof (cases j)
    case 0
    then show ?thesis by (auto simp: Let_def)
  next
    case (Suc j')
    with 3 have "(y # ys) ! j' \<le> (y # ys) ! argmax_list (y # ys)" by simp
    with Suc show ?thesis by (auto simp: Let_def)
  qed
qed

lemma argmax_list_first: "j < argmax_list xs \<Longrightarrow> xs ! j < xs ! argmax_list xs"
proof (induction xs arbitrary: j rule: argmax_list.induct)
  case 1 then show ?case by simp
next
  case (2 x) then show ?case by simp
next
  case (3 x y ys)
  show ?case
  proof (cases j)
    case 0
    with 3 show ?thesis by (auto simp: Let_def split: if_splits)
  next
    case (Suc j')
    with 3 show ?thesis by (auto simp: Let_def split: if_splits)
  qed
qed

lemma first_max_index_argmax: "ms \<noteq> [] \<Longrightarrow> first_max_index ms (argmax_list ms)"
  unfolding first_max_index_def list_all_length
  by (auto simp: argmax_list_lt argmax_list_max argmax_list_first)

lemma first_max_index_unique:
  assumes "first_max_index ms k" and "first_max_index ms k'"
  shows "k = k'"
proof (rule ccontr)
  assume ne: "k \<noteq> k'"
  have lt: "k < length ms" "k' < length ms"
    using assms by (simp_all add: first_max_index_def)
  have le: "ms ! k' \<le> ms ! k" "ms ! k \<le> ms ! k'"
    using assms lt by (simp_all add: first_max_index_def list_all_length)
  have less: "ms ! j < ms ! k'" if "j < k'" for j
    using assms(2) lt that by (simp add: first_max_index_def list_all_length)
  have less': "ms ! j < ms ! k" if "j < k" for j
    using assms(1) lt that by (simp add: first_max_index_def list_all_length)
  from ne consider "k < k'" | "k' < k" by (meson linorder_neqE_nat)
  then show False
  proof cases
    case 1
    from less [OF 1] le show False by simp
  next
    case 2
    from less' [OF 2] le show False by simp
  qed
qed

lemma first_max_index_iff_argmax:
  "ms \<noteq> [] \<Longrightarrow> first_max_index ms k \<longleftrightarrow> k = argmax_list ms"
  using first_max_index_unique first_max_index_argmax by blast




subsection \<open>Float32 means and arithmetic means\<close>

lemma example_ds_init: "MyDataset_init example_rnd mean32_once 1 = Inr example_ds"
proof -
  have "map argmax_list (rows 1 4 (map mean32_once (rows (1 * 4) 64 (map example_rnd [0..<1 * 256]))))
      = [1]"
    by (simp add: rows_def take_map drop_map mean32_once_def upt_rec example_rnd_def
        round32_half round32_quarter)
  then show ?thesis
    using MyDataset_init_pos [of 1 example_rnd mean32_once]
    by (simp add: example_ds_def torch_rand_def)
qed












subsection \<open>Length and indexed access\<close>

lemma MyDataset_init_shape:
  assumes "MyDataset_init rnd fmean N = Inr ds"
  shows "shape (samples ds) = [N, 256]" and "shape (labels ds) = [N]"
    and "length (data (labels ds)) = N"
  using assms MyDataset_init_pos [OF MyDataset_init_Inr [OF assms], of rnd fmean]
  by (auto simp: length_rows)

text \<open>
  Claim C4, as amended. For a dataset of size \<open>N\<close> the length is \<open>N\<close>. Indexed access with
  an integer \<open>i\<close> raises the out-of-range error when \<open>i \<ge> N\<close> or \<open>i < -N\<close>, returns the
  pair stored at position \<open>i\<close> when \<open>0 \<le> i < N\<close>, and, a negative index counting from the
  end, the pair stored at position \<open>N + i\<close> when \<open>-N \<le> i < 0\<close>.
\<close>

theorem MyDataset_len_getitem:
  assumes "MyDataset_init rnd fmean N = Inr ds"
  shows "MyDataset_len ds = Inr N
    \<and> (int N \<le> i \<or> i < - int N \<longrightarrow> MyDataset_getitem ds i = Inl IndexError)
    \<and> (0 \<le> i \<and> i < int N \<longrightarrow> MyDataset_getitem ds i = Inr (item_at ds (nat i)))
    \<and> (- int N \<le> i \<and> i < 0 \<longrightarrow> MyDataset_getitem ds i = Inr (item_at ds (nat (i + int N))))"
proof -
  note sh = MyDataset_init_shape [OF assms]
  have len: "MyDataset_len ds = Inr N"
    by (simp add: MyDataset_len_def tensor_len_def sh)
  have one: "\<And>k. k < N \<Longrightarrow> take 1 (drop k (data (labels ds))) = [data (labels ds) ! k]"
    using sh(3) by (simp add: take_Suc_conv_app_nth Cons_nth_drop_Suc [symmetric])
  have out: "int N \<le> i \<or> i < - int N \<Longrightarrow> MyDataset_getitem ds i = Inl IndexError"
    by (auto simp: MyDataset_getitem_def tensor_index_def sh)
  have inr: "0 \<le> i \<and> i < int N \<Longrightarrow> MyDataset_getitem ds i = Inr (item_at ds (nat i))"
    using one [of "nat i"]
    by (auto simp: MyDataset_getitem_def tensor_index_def sh item_at_def)
  have neg: "- int N \<le> i \<and> i < 0 \<Longrightarrow>
      MyDataset_getitem ds i = Inr (item_at ds (nat (i + int N)))"
    using one [of "nat (i + int N)"]
    by (auto simp: MyDataset_getitem_def tensor_index_def sh item_at_def)
  show ?thesis using len out inr neg by blast
qed

theorem MyDataset_len_getitem_witness:
  "MyDataset_len example_ds = Inr 1
   \<and> MyDataset_getitem example_ds 1 = Inl IndexError
   \<and> MyDataset_getitem example_ds (- 2) = Inl IndexError
   \<and> MyDataset_getitem example_ds 0 = Inr (item_at example_ds 0)
   \<and> MyDataset_getitem example_ds (- 1) = Inr (item_at example_ds 0)"
  using MyDataset_len_getitem [OF example_ds_init, of 1]
    MyDataset_len_getitem [OF example_ds_init, of "- 2"]
    MyDataset_len_getitem [OF example_ds_init, of 0]
    MyDataset_len_getitem [OF example_ds_init, of "- 1"]
  by simp

text \<open>The claim as it was stated has every negative index raise. On the dataset of one
  item the index \<open>-1\<close> returns that item.\<close>

theorem MyDataset_getitem_negative_index:
  "MyDataset_init example_rnd mean32_once 1 = Inr example_ds
   \<and> MyDataset_getitem example_ds (- 1)
       = Inr (\<lparr>shape = [256], data = map example_rnd [0..<256]\<rparr>, \<lparr>shape = [], data = [1]\<rparr>)"
proof -
  have "MyDataset_getitem example_ds (- 1)
       = Inr (\<lparr>shape = [256], data = map example_rnd [0..<256]\<rparr>, \<lparr>shape = [], data = [1]\<rparr>)"
    by (simp add: example_ds_def MyDataset_getitem_def tensor_index_def torch_rand_def)
  with example_ds_init show ?thesis by (rule conjI)
qed


section \<open>Properties of the data loader\<close>

lemma batch_sampler_sizes:
  assumes "0 < B" and "length batch < B"
  shows "map length (batch_sampler B dl batch xs)
       = replicate ((length batch + length xs) div B) B
         @ (if \<not> dl \<and> (length batch + length xs) mod B \<noteq> 0
            then [(length batch + length xs) mod B] else [])"
  using assms
proof (induction xs arbitrary: batch)
  case Nil
  then show ?case by simp
next
  case (Cons idx rest)
  show ?case
  proof (cases "length (batch @ [idx]) = B")
    case True
    then have n: "length batch + length (idx # rest) = B + length rest" by simp
    have d: "(B + length rest) div B = Suc (length rest div B)"
      using Cons.prems(1) by simp
    have m: "(B + length rest) mod B = length rest mod B" by simp
    have "map length (batch_sampler B dl batch (idx # rest))
        = B # map length (batch_sampler B dl [] rest)"
      using True by simp
    also have "map length (batch_sampler B dl [] rest)
        = replicate (length rest div B) B
          @ (if \<not> dl \<and> length rest mod B \<noteq> 0 then [length rest mod B] else [])"
      using Cons.IH [of "[]"] Cons.prems(1) by simp
    finally show ?thesis unfolding n d m by simp
  next
    case False
    then have lt: "length (batch @ [idx]) < B" using Cons.prems(2) by simp
    have "map length (batch_sampler B dl batch (idx # rest))
        = map length (batch_sampler B dl (batch @ [idx]) rest)"
      using False by simp
    also have "\<dots> = replicate ((length (batch @ [idx]) + length rest) div B) B
          @ (if \<not> dl \<and> (length (batch @ [idx]) + length rest) mod B \<noteq> 0
             then [(length (batch @ [idx]) + length rest) mod B] else [])"
      by (rule Cons.IH [OF Cons.prems(1) lt])
    finally show ?thesis by simp
  qed
qed

lemma batch_sampler_concat:
  "concat (batch_sampler B False batch xs) = batch @ xs"
  by (induction xs arbitrary: batch) auto

lemma sum_list_replicate_nat: "sum_list (replicate k (B::nat)) = k * B"
  by (induction k) auto

text \<open>
  Claim C5. For every positive batch size \<open>B\<close> and every pass over \<open>N\<close> indices: with
  drop-last the pass yields exactly \<open>N div B\<close> batches, each of exactly \<open>B\<close> items; without
  it the pass yields \<open>N div B\<close> batches of \<open>B\<close> items followed by one batch of \<open>N mod B\<close>
  items when that remainder is not zero, so the sizes add up to \<open>N\<close> (and the batches,
  one after the other, are the indices in their order).
\<close>

theorem DataLoader_pass_batches:
  assumes "0 < B"
  shows "\<exists>bs. DataLoader_pass B drop_last idxs = Inr bs
     \<and> (drop_last \<longrightarrow> length bs = length idxs div B \<and> list_all (\<lambda>b. length b = B) bs)
     \<and> (\<not> drop_last \<longrightarrow>
          map length bs = replicate (length idxs div B) B
             @ (if length idxs mod B = 0 then [] else [length idxs mod B])
          \<and> sum_list (map length bs) = length idxs
          \<and> concat bs = idxs)"
proof -
  let ?bs = "batch_sampler B drop_last [] idxs"
  have pass: "DataLoader_pass B drop_last idxs = Inr ?bs"
    using assms by (simp add: DataLoader_pass_def)
  have sizes: "map length ?bs = replicate (length idxs div B) B
        @ (if \<not> drop_last \<and> length idxs mod B \<noteq> 0 then [length idxs mod B] else [])"
    using batch_sampler_sizes [OF assms, of "[]" drop_last idxs] assms by simp
  have dl: "length ?bs = length idxs div B \<and> list_all (\<lambda>b. length b = B) ?bs" if drop_last
  proof -
    from sizes that have e: "map length ?bs = replicate (length idxs div B) B" by simp
    then have "length (map length ?bs) = length idxs div B" by simp
    moreover have "\<forall>n \<in> set (map length ?bs). n = B" unfolding e by simp
    ultimately show ?thesis by (simp add: list_all_iff)
  qed
  have keep: "map length ?bs = replicate (length idxs div B) B
             @ (if length idxs mod B = 0 then [] else [length idxs mod B])
          \<and> sum_list (map length ?bs) = length idxs \<and> concat ?bs = idxs" if "\<not> drop_last"
  proof -
    from sizes that have e: "map length ?bs = replicate (length idxs div B) B
             @ (if length idxs mod B = 0 then [] else [length idxs mod B])" by simp
    have "sum_list (map length ?bs) = length idxs"
      unfolding e using div_mult_mod_eq [of "length idxs" B]
      by (cases "length idxs mod B = 0") (simp_all add: sum_list_replicate_nat)
    moreover have "concat ?bs = idxs"
      using that batch_sampler_concat [of B "[]" idxs] by simp
    ultimately show ?thesis using e by simp
  qed
  show ?thesis using pass dl keep by blast
qed

lemma DataLoader_pass_zero: "DataLoader_pass 0 drop_last idxs = Inl ValueError"
  by (simp add: DataLoader_pass_def)

theorem DataLoader_pass_batches_witness:
  "(0::nat) < 256
   \<and> (\<exists>bs. DataLoader_pass 256 True [0..<40000] = Inr bs
        \<and> length bs = 156 \<and> list_all (\<lambda>b. length b = 256) bs)
   \<and> (\<exists>bs. DataLoader_pass 256 False [0..<10000] = Inr bs
        \<and> map length bs = replicate 39 256 @ [16]
        \<and> sum_list (map length bs) = 10000
        \<and> concat bs = [0..<10000])"
proof -
  have pos: "(0::nat) < 256" by simp
  have a: "length [0..<40000::nat] div 256 = 156" by simp
  have b: "length [0..<10000::nat] div 256 = 39" by simp
  have c: "length [0..<10000::nat] mod 256 = 16" by simp
  have l: "length [0..<10000::nat] = 10000" by simp
  show ?thesis
    using DataLoader_pass_batches [OF pos, of True "[0..<40000]"]
      DataLoader_pass_batches [OF pos, of False "[0..<10000]"]
    unfolding a b c l by simp
qed


section \<open>Properties of the model\<close>

lemma rows_map_upt:
  "rows n k (map f [0..<n * k]) = map (\<lambda>j. map f [j * k..<j * k + k]) [0..<n]"
proof -
  have "take k (drop (j * k) (map f [0..<n * k])) = map f [j * k..<j * k + k]" if "j < n" for j
  proof -
    have "j * k + k = Suc j * k" by simp
    also have "\<dots> \<le> n * k" using that by (intro mult_le_mono1) simp
    finally have "j * k + k \<le> n * k" .
    then show ?thesis by (simp add: take_map drop_map take_upt)
  qed
  then show ?thesis by (simp add: rows_def)
qed

lemma dot_map_upt:
  "dot (map f [a..<a + length x]) x = (\<Sum>k<length x. f (a + k) * x ! k)"
proof -
  have len: "length (map2 (*) (map f [a..<a + length x]) x) = length x" by simp
  have "dot (map f [a..<a + length x]) x
      = (\<Sum>k = 0..<length x. map2 (*) (map f [a..<a + length x]) x ! k)"
    unfolding dot_def by (simp only: sum_list_sum_nth len)
  also have "\<dots> = (\<Sum>k = 0..<length x. f (a + k) * x ! k)"
    by (rule sum.cong) simp_all
  finally show ?thesis by (simp add: lessThan_atLeast0)
qed

lemma map2_map_upt:
  "map2 h (map f [0..<n]) (map g [0..<n]) = map (\<lambda>j. h (f j) (g j)) [0..<n]"
  by (simp add: zip_map_map zip_same_conv_map)

lemma Linear_forward:
  assumes "length x = i"
  shows "layer_forward tr (nn_Linear w0 b0 i n) g x
       = (Inr (map (\<lambda>j. (\<Sum>k<i. w0 (j * i + k) * x ! k) + b0 j) [0..<n]), g)"
proof -
  have "map2 (\<lambda>row bj. dot row x + bj) (rows n i (map w0 [0..<n * i])) (map b0 [0..<n])
      = map (\<lambda>j. dot (map w0 [j * i..<j * i + i]) x + b0 j) [0..<n]"
    unfolding rows_map_upt by (rule map2_map_upt)
  also have "\<dots> = map (\<lambda>j. (\<Sum>k<i. w0 (j * i + k) * x ! k) + b0 j) [0..<n]"
    using dot_map_upt [of w0 _ x] assms by simp
  finally show ?thesis using assms by (simp add: nn_Linear_def)
qed

lemma Dropout_forward_upt:
  "layer_forward tr (Dropout p) g (map h [0..<n])
     = (Inr (map (\<lambda>j. if tr then (if g j then 0 else h j / (1 - p)) else h j) [0..<n]),
        if tr then (\<lambda>j. g (j + n)) else g)"
proof (cases tr)
  case True
  have "map2 (\<lambda>j v. if g j then 0 else v / (1 - p)) [0..<n] (map h [0..<n])
      = map (\<lambda>j. if g j then 0 else h j / (1 - p)) [0..<n]"
    using map2_map_upt [of "\<lambda>j v. if g j then 0 else v / (1 - p)" "\<lambda>j. j" n h] by simp
  with True show ?thesis by simp
next
  case False
  then show ?thesis by simp
qed

text \<open>
  Claim C6. For every input vector \<open>x\<close> of the model's input dimension, in either mode,
  the forward computation of the model is the composition the spec describes: 0.5 is
  subtracted from every element, a linear transform gives 128 units, each is rectified,
  dropout with probability 0.2 acts on them in training mode only, and a linear transform
  gives the \<open>out_dim\<close> output scores, which are returned as they are (no softmax).
\<close>

theorem MyModel_forward_composition:
  assumes "length x = in_dim"
  shows "MyModel_forward (MyModel_init w1 b1 w2 b2 in_dim out_dim\<lparr>training := tr\<rparr>) g x
       = (Inr (map (output_score w2 b2 (dropped_unit tr g (hidden_unit w1 b1 x))) [0..<out_dim]),
          if tr then (\<lambda>j. g (j + 128)) else g)"
proof -
  let ?c = "map (\<lambda>v. v - 0.5) x"
  let ?g' = "if tr then (\<lambda>j. g (j + 128)) else g"
  have lc: "length ?c = in_dim" using assms by simp
  have l1: "layer_forward tr (nn_Linear w1 b1 in_dim 128) g ?c
      = (Inr (map (\<lambda>j. (\<Sum>k<in_dim. w1 (j * in_dim + k) * ?c ! k) + b1 j) [0..<128]), g)"
    by (rule Linear_forward [OF lc])
  have pre: "(\<Sum>k<in_dim. w1 (j * in_dim + k) * ?c ! k)
           = (\<Sum>k<length x. w1 (j * length x + k) * (x ! k - 0.5))" for j
    using assms by (intro sum.cong) simp_all
  have l2: "layer_forward tr ReLU g
        (map (\<lambda>j. (\<Sum>k<in_dim. w1 (j * in_dim + k) * ?c ! k) + b1 j) [0..<128])
      = (Inr (map (hidden_unit w1 b1 x) [0..<128]), g)"
  proof -
    have "(\<lambda>j. max 0 ((\<Sum>k<in_dim. w1 (j * in_dim + k) * ?c ! k) + b1 j)) = hidden_unit w1 b1 x"
      by (rule ext) (simp only: hidden_unit_def pre)
    then show ?thesis by (simp only: layer_forward.simps map_map o_def)
  qed
  have l3: "layer_forward tr (Dropout 0.2) g (map (hidden_unit w1 b1 x) [0..<128])
      = (Inr (map (dropped_unit tr g (hidden_unit w1 b1 x)) [0..<128]), ?g')"
    unfolding Dropout_forward_upt dropped_unit_def by simp
  have ld: "length (map (dropped_unit tr g (hidden_unit w1 b1 x)) [0..<128]) = 128" by simp
  have l4: "layer_forward tr (nn_Linear w2 b2 128 out_dim) ?g'
        (map (dropped_unit tr g (hidden_unit w1 b1 x)) [0..<128])
      = (Inr (map (output_score w2 b2 (dropped_unit tr g (hidden_unit w1 b1 x))) [0..<out_dim]), ?g')"
  proof -
    have "(\<Sum>k<128. w2 (i * 128 + k) * map (dropped_unit tr g (hidden_unit w1 b1 x)) [0..<128] ! k)
        = (\<Sum>j<128. w2 (i * 128 + j) * dropped_unit tr g (hidden_unit w1 b1 x) j)" for i
      by (intro sum.cong) (simp_all del: upt_Suc)
    then show ?thesis
      unfolding Linear_forward [OF ld] output_score_def by (simp only:)
  qed
  show ?thesis
    unfolding MyModel_forward_def MyModel_init_def
    using l1 l2 l3 l4 by (simp del: layer_forward.simps)
qed

theorem MyModel_forward_composition_witness:
  "length example_input = 256
   \<and> MyModel_forward (example_model2\<lparr>training := False\<rparr>) (\<lambda>j. True) example_input
       = (Inr [- 1, 4, 4, 4], \<lambda>j. True)
   \<and> MyModel_forward (example_model2\<lparr>training := True\<rparr>) (\<lambda>j. True) example_input
       = (Inr [- 2, 3, 3, 3], \<lambda>j. True)"
proof -
  have len: "length example_input = 256" by (simp add: example_input_def)
  have u: "[0..<4] = [0, 1, 2, 3]" by (simp add: upt_rec)
  have h: "hidden_unit (\<lambda>k. 0) (\<lambda>j. 1) example_input = (\<lambda>j. 1)"
    by (rule ext) (simp add: hidden_unit_def)
  show ?thesis
    using MyModel_forward_composition [OF len, of False "\<lambda>k. 0" "\<lambda>j. 1" "\<lambda>k. 1 / 128"
        "\<lambda>i. if i = 0 then - 2 else 3" 4 "\<lambda>j. True"]
      MyModel_forward_composition [OF len, of True "\<lambda>k. 0" "\<lambda>j. 1" "\<lambda>k. 1 / 128"
        "\<lambda>i. if i = 0 then - 2 else 3" 4 "\<lambda>j. True"]
      len
    unfolding example_model2_def [symmetric] u h
    by (simp add: output_score_def dropped_unit_def)
qed

text \<open>An input of another length is refused by the first linear layer.\<close>

lemma MyModel_forward_wrong_dimension:
  "length x \<noteq> in_dim \<Longrightarrow>
   MyModel_forward (MyModel_init w1 b1 w2 b2 in_dim out_dim\<lparr>training := tr\<rparr>) g x
     = (Inl RuntimeError, g)"
  by (simp add: MyModel_forward_def MyModel_init_def nn_Linear_def)



subsection \<open>Evaluation mode\<close>

lemma layer_forward_eval:
  "layer_forward False l g x = (fst (layer_forward False l g' x), g)"
  by (cases l) simp_all

lemma Sequential_forward_eval:
  "Sequential_forward False ls g x = (fst (Sequential_forward False ls g' x), g)"
proof (induction ls arbitrary: x)
  case Nil
  show ?case by simp
next
  case (Cons l ls)
  obtain r where r: "layer_forward False l g' x = (r, g')"
    using layer_forward_eval [of l g' x g'] by simp
  then have r': "layer_forward False l g x = (r, g)"
    using layer_forward_eval [of l g x g'] by simp
  show ?case
  proof (cases r)
    case (Inl e)
    with r r' show ?thesis by simp
  next
    case (Inr y)
    with r r' Cons.IH [of y] show ?thesis by simp
  qed
qed

text \<open>
  Claim C7. In evaluation mode the model is deterministic: a forward pass leaves the random
  generator as it found it, so a second pass on the same input returns the same output,
  and the output is the same whatever the generator holds.
\<close>

theorem MyModel_eval_deterministic:
  "(case MyModel_forward (MyModel_eval m) g x of
      (y1, g1) \<Rightarrow> (case MyModel_forward (MyModel_eval m) g1 x of (y2, g2) \<Rightarrow> y1 = y2 \<and> g2 = g))
   \<and> fst (MyModel_forward (MyModel_eval m) g x) = fst (MyModel_forward (MyModel_eval m) g' x)"
proof -
  let ?f = "\<lambda>h. Sequential_forward False (net m) h (map (\<lambda>v. v - 0.5) x)"
  have e: "MyModel_forward (MyModel_eval m) h x = ?f h" for h
    by (simp add: MyModel_forward_def MyModel_eval_def)
  have a: "?f g = (fst (?f g'), g)" by (rule Sequential_forward_eval)
  have b: "?f g = (fst (?f g), g)" by (rule Sequential_forward_eval)
  show ?thesis unfolding e using a b by (simp add: split_beta)
qed

theorem MyModel_eval_deterministic_witness:
  "(case MyModel_forward (MyModel_eval example_model2) (\<lambda>j. True) example_input of
      (y1, g1) \<Rightarrow>
        (case MyModel_forward (MyModel_eval example_model2) g1 example_input of
           (y2, g2) \<Rightarrow> y1 = y2 \<and> g2 = (\<lambda>j. True)))
   \<and> fst (MyModel_forward (MyModel_eval example_model2) (\<lambda>j. True) example_input)
     = fst (MyModel_forward (MyModel_eval example_model2) (\<lambda>j. False) example_input)"
  by (rule MyModel_eval_deterministic)

text \<open>In training mode the output does depend on the draws.\<close>

lemma MyModel_train_depends_on_generator:
  "fst (MyModel_forward \<lparr>net = [Dropout 0.2], training = True\<rparr> (\<lambda>j. True) [1])
   \<noteq> fst (MyModel_forward \<lparr>net = [Dropout 0.2], training = True\<rparr> (\<lambda>j. False) [1])"
  by (simp add: MyModel_forward_def)


section \<open>Properties of the epoch loop\<close>

subsection \<open>Accuracy and loss\<close>

lemma count_correct_le: "count_correct out lbls \<le> length lbls"
proof -
  have "count_correct out lbls \<le> length (zip out lbls)"
    unfolding count_correct_def by (rule length_filter_le)
  then show ?thesis by simp
qed

text \<open>A sample counts as correct exactly when its label is the first index of the
  maximum of its row of scores.\<close>

lemma count_correct_first_max:
  assumes "length out = length lbls" and "list_all (\<lambda>row. row \<noteq> []) out"
  shows "count_correct out lbls
       = card {i. i < length lbls \<and> first_max_index (out ! i) (lbls ! i)}"
proof -
  have "count_correct out lbls
      = card {i. i < length (zip out lbls) \<and> (\<lambda>(row, l). argmax_list row = l) (zip out lbls ! i)}"
    unfolding count_correct_def by (rule length_filter_conv_card)
  also have "{i. i < length (zip out lbls) \<and> (\<lambda>(row, l). argmax_list row = l) (zip out lbls ! i)}
      = {i. i < length lbls \<and> first_max_index (out ! i) (lbls ! i)}"
    using assms by (auto simp: first_max_index_iff_argmax list_all_length)
  finally show ?thesis .
qed

lemma cross_entropy_lengths: "cross_entropy out lbls = Inr l \<Longrightarrow> length out = length lbls"
  by (simp add: cross_entropy_def split: if_splits)

text \<open>The loop and the trace take the same steps: the counters of the loop are the sums
  over the trace, its loss is the last of the trace, and it stops with the error the
  trace stops with.\<close>

lemma loop_batches_trace:
  "fst (loop_batches bw model optimizer mode loader (ns, nc, loss) w)
     = (case epoch_trace bw model optimizer mode loader w of
          (tr, Some e) \<Rightarrow> Inl e
        | (tr, None) \<Rightarrow>
            Inr (ns + total_samples tr, nc + total_correct tr,
                 if loader = [] then loss else Some (last_loss tr)))
   \<and> (snd (epoch_trace bw model optimizer mode loader w) = None \<longrightarrow>
        map fst (fst (epoch_trace bw model optimizer mode loader w))
          = map (\<lambda>b. length (fst b)) loader)
   \<and> (list_all paired_batch loader \<longrightarrow>
        total_correct (fst (epoch_trace bw model optimizer mode loader w))
          \<le> total_samples (fst (epoch_trace bw model optimizer mode loader w)))"
proof (induction loader arbitrary: ns nc loss w)
  case Nil
  show ?case by (simp add: total_samples_def total_correct_def)
next
  case (Cons b rest)
  obtain smp lbls where b: "b = (smp, lbls)" by (cases b)
  obtain res r' where m: "model (params w) (aux w) smp = (res, r')"
    by (cases "model (params w) (aux w) smp")
  show ?case
  proof (cases res)
    case (Inl e)
    then show ?thesis using m by (simp add: b total_samples_def total_correct_def)
  next
    case (Inr out)
    note out = Inr
    show ?thesis
    proof (cases "cross_entropy out lbls")
      case (Inl e)
      then show ?thesis using m out by (simp add: b total_samples_def total_correct_def)
    next
      case (Inr l)
      note ce = Inr
      obtain err w1 where bp: "(if mode = ''train''
            then backward_pass bw optimizer (aux w) smp lbls (w\<lparr>aux := r'\<rparr>)
            else (None, w\<lparr>aux := r'\<rparr>)) = (err, w1)"
        by (cases "if mode = ''train''
            then backward_pass bw optimizer (aux w) smp lbls (w\<lparr>aux := r'\<rparr>)
            else (None, w\<lparr>aux := r'\<rparr>)")
      show ?thesis
      proof (cases err)
        case (Some e)
        then show ?thesis
          using m out ce bp by (simp add: b total_samples_def total_correct_def)
      next
        case None
        obtain tr er where t: "epoch_trace bw model optimizer mode rest w1 = (tr, er)"
          by (cases "epoch_trace bw model optimizer mode rest w1")
        have tr': "epoch_trace bw model optimizer mode (b # rest) w
            = ((length smp, out, lbls, l) # tr, er)"
          using m out ce bp None t by (simp add: b)
        have step: "loop_batches bw model optimizer mode (b # rest) (ns, nc, loss) w
            = loop_batches bw model optimizer mode rest
                (ns + length smp, nc + count_correct out lbls, Some l) w1"
          using m out ce bp None by (simp add: b)
        note ih = Cons.IH [of "ns + length smp" "nc + count_correct out lbls" "Some l" w1,
            unfolded t fst_conv snd_conv]
        have len: "er = None \<Longrightarrow> length tr = length rest"
          using ih by (metis length_map)
        have ll: "er = None \<Longrightarrow> last_loss ((length smp, out, lbls, l) # tr)
            = (if rest = [] then l else last_loss tr)"
          using len by (cases rest) (auto simp: last_loss_def)
        have cc: "paired_batch b \<Longrightarrow> count_correct out lbls \<le> length smp"
          using count_correct_le [of out lbls] by (simp add: paired_batch_def b)
        have one: "fst (loop_batches bw model optimizer mode (b # rest) (ns, nc, loss) w)
            = (case er of
                 Some e \<Rightarrow> Inl e
               | None \<Rightarrow>
                   Inr (ns + total_samples ((length smp, out, lbls, l) # tr),
                        nc + total_correct ((length smp, out, lbls, l) # tr),
                        Some (last_loss ((length smp, out, lbls, l) # tr))))"
          unfolding step using ih ll
          by (cases er) (auto simp: total_samples_def total_correct_def)
        have two: "er = None \<longrightarrow>
            map fst ((length smp, out, lbls, l) # tr) = map (\<lambda>b. length (fst b)) (b # rest)"
          using ih by (simp add: b)
        have three: "list_all paired_batch (b # rest) \<longrightarrow>
            total_correct ((length smp, out, lbls, l) # tr)
              \<le> total_samples ((length smp, out, lbls, l) # tr)"
          using ih cc by (auto simp: total_samples_def total_correct_def)
        show ?thesis
          unfolding tr' fst_conv snd_conv using one two three by simp
      qed
    qed
  qed
qed

text \<open>
  Claim C2, as amended. For every model, every batch sequence and every mode: when a step
  of the loop raises on some batch (the forward call, the loss or, in mode \<open>train\<close>, the
  missing optimizer, the backward pass or the optimizer step), the loop raises that
  error; when none does and no sample at all was seen, it raises the division-by-zero
  error; otherwise it returns a pair. The first component of the pair is the number of
  correctly classified samples (the predicted label is the argmax of the scores the model
  returned for the sample) summed over all batches, divided by the number of samples of
  all batches, a value that is not negative and that is at most 1 when every batch has
  one label per sample; the second component is the cross-entropy loss of the last batch,
  not an average.
\<close>

theorem single_epoch_loop_accuracy_and_loss:
  "(case epoch_trace bw model optimizer mode loader w of
      (tr, err) \<Rightarrow>
        fst (single_epoch_loop bw model loader optimizer mode w)
          = (case err of
               Some e \<Rightarrow> Inl e
             | None \<Rightarrow>
                 if total_samples tr = 0 then Inl ZeroDivisionError
                 else Inr (real (total_correct tr) / real (total_samples tr), last_loss tr))
        \<and> (err = None \<longrightarrow>
             length tr = length loader
             \<and> total_samples tr = sum_list (map (\<lambda>b. length (fst b)) loader))
        \<and> 0 \<le> real (total_correct tr) / real (total_samples tr)
        \<and> (list_all paired_batch loader \<longrightarrow>
             real (total_correct tr) / real (total_samples tr) \<le> 1))"
proof -
  obtain tr err where t: "epoch_trace bw model optimizer mode loader w = (tr, err)"
    by (cases "epoch_trace bw model optimizer mode loader w")
  note f = loop_batches_trace [of bw model optimizer mode loader 0 0 None w,
      unfolded t fst_conv snd_conv]
  have fs: "err = None \<Longrightarrow> map fst tr = map (\<lambda>b. length (fst b)) loader"
    using f by simp
  have len: "err = None \<longrightarrow> length tr = length loader
      \<and> total_samples tr = sum_list (map (\<lambda>b. length (fst b)) loader)"
  proof
    assume e: "err = None"
    have "length (map fst tr) = length (map (\<lambda>b. length (fst b)) loader)"
      by (simp only: fs [OF e])
    then have "length tr = length loader" by simp
    then show "length tr = length loader
        \<and> total_samples tr = sum_list (map (\<lambda>b. length (fst b)) loader)"
      by (simp add: total_samples_def fs [OF e])
  qed
  have ne: "total_samples tr \<noteq> 0 \<Longrightarrow> loader \<noteq> []"
    using t by (cases loader) (auto simp: total_samples_def)
  have res: "fst (single_epoch_loop bw model loader optimizer mode w)
      = (case err of
           Some e \<Rightarrow> Inl e
         | None \<Rightarrow>
             if total_samples tr = 0 then Inl ZeroDivisionError
             else Inr (real (total_correct tr) / real (total_samples tr), last_loss tr))"
  proof (cases err)
    case (Some e)
    then have "fst (loop_batches bw model optimizer mode loader (0, 0, None) w) = Inl e"
      using f by simp
    then show ?thesis using Some
      by (cases "loop_batches bw model optimizer mode loader (0, 0, None) w")
         (simp add: single_epoch_loop_def)
  next
    case None
    then have "fst (loop_batches bw model optimizer mode loader (0, 0, None) w)
        = Inr (total_samples tr, total_correct tr,
               if loader = [] then None else Some (last_loss tr))"
      using f by simp
    then show ?thesis using None ne
      by (cases "loop_batches bw model optimizer mode loader (0, 0, None) w")
         (auto simp: single_epoch_loop_def)
  qed
  have le: "list_all paired_batch loader \<longrightarrow>
      real (total_correct tr) / real (total_samples tr) \<le> 1"
  proof
    assume "list_all paired_batch loader"
    then have "total_correct tr \<le> total_samples tr" using f by simp
    then show "real (total_correct tr) / real (total_samples tr) \<le> 1"
      by (cases "total_samples tr = 0") simp_all
  qed
  show ?thesis unfolding t using res len le by simp
qed

lemma example_trace_train:
  "epoch_trace example_backward example_model (Some example_optimizer) ''train''
     example_loader example_world
   = ([(2, [[1, 0], [0, 1]], [0, 0], Finite ((ln (exp 1 + 1) - 1 + ln (1 + exp 1)) / 2)),
       (1, [[0, 1]], [0], Finite (ln (1 + exp 1)))], None)"
  by (simp add: example_loader_def example_world_def example_model_def example_optimizer_def
      example_backward_def backward_pass_def cross_entropy_def)

lemma example_trace_test:
  "epoch_trace example_backward example_model None ''test'' example_loader example_world
   = ([(2, [[1, 0], [0, 1]], [0, 0], Finite ((ln (exp 1 + 1) - 1 + ln (1 + exp 1)) / 2)),
       (1, [[1, 0]], [0], Finite (ln (exp 1 + 1) - 1))], None)"
  by (simp add: example_loader_def example_world_def example_model_def
      cross_entropy_def)

text \<open>The model of the notebook, in evaluation mode, on a batch of one sample.\<close>

lemma example_model2_scores:
  "MyModel_forward (MyModel_eval example_model2) g example_input = (Inr [- 1, 4, 4, 4], g)"
proof -
  let ?c = "map (\<lambda>v. v - 0.5) example_input"
  have lc: "length ?c = 256" by (simp add: example_input_def)
  have l1: "layer_forward False (nn_Linear (\<lambda>k. 0) (\<lambda>j. 1) 256 128) g ?c
      = (Inr (map (\<lambda>j. 1) [0..<128]), g)"
    unfolding Linear_forward [OF lc] by simp
  have l2: "layer_forward False ReLU g (map (\<lambda>j. 1) [0..<128]) = (Inr (map (\<lambda>j. 1) [0..<128]), g)"
    by (simp del: upt_Suc)
  have l3: "layer_forward False (Dropout 0.2) g (map (\<lambda>j. 1) [0..<128])
      = (Inr (map (\<lambda>j. 1) [0..<128]), g)"
    by simp
  have ld: "length (map (\<lambda>j. 1 :: real) [0..<128]) = 128" by simp
  have s: "(\<Sum>k<128. 1 / 128 * map (\<lambda>j. 1 :: real) [0..<128] ! k) = 1"
  proof -
    have "(\<Sum>k<128. 1 / 128 * map (\<lambda>j. 1 :: real) [0..<128] ! k) = (\<Sum>k<128::nat. 1 / 128)"
      by (intro sum.cong) (simp_all del: upt_Suc)
    then show ?thesis by simp
  qed
  have u: "[0..<4] = [0, 1, 2, 3]" by (simp add: upt_rec)
  have l4: "layer_forward False (nn_Linear (\<lambda>k. 1 / 128) (\<lambda>i. if i = 0 then - 2 else 3) 128 4) g
        (map (\<lambda>j. 1) [0..<128])
      = (Inr [- 1, 4, 4, 4], g)"
    unfolding Linear_forward [OF ld] s u by simp
  show ?thesis
    unfolding MyModel_forward_def MyModel_eval_def example_model2_def MyModel_init_def
    using l1 l2 l3 l4 by (simp del: layer_forward.simps)
qed

lemma example_trace_notebook_model:
  "epoch_trace (\<lambda>p r xs ls g. Inr g) MyModel_call None ''test''
     [([example_input], [1])] example_world2
   = ([(1, [[- 1, 4, 4, 4]], [1], Finite (ln (exp (- 1) + (exp 4 + (exp 4 + exp 4))) - 4))], None)"
  by (simp add: example_world2_def example_model2_scores cross_entropy_def)

theorem single_epoch_loop_accuracy_and_loss_witness:
  "snd (epoch_trace example_backward example_model (Some example_optimizer) ''train''
          example_loader example_world) = None
   \<and> list_all paired_batch example_loader
   \<and> fst (single_epoch_loop example_backward example_model example_loader
          (Some example_optimizer) ''train'' example_world)
     = Inr (1 / 3, Finite (ln (1 + exp 1)))
   \<and> fst (single_epoch_loop example_backward example_model example_loader
          None ''test'' example_world)
     = Inr (2 / 3, Finite (ln (exp 1 + 1) - 1))
   \<and> fst (single_epoch_loop (\<lambda>p r xs ls g. Inr g) MyModel_call [([example_input], [1])]
          None ''test'' example_world2)
     = Inr (1, Finite (ln (exp (- 1) + (exp 4 + (exp 4 + exp 4))) - 4))"
proof -
  have c1: "count_correct [[1, 0], [0, 1]] [0, 0] = 1" "count_correct [[0, 1]] [0] = 0"
    "count_correct [[1, 0]] [0] = 1" "count_correct [[- 1, 4, 4, 4]] [Suc 0] = Suc 0"
    by (simp_all add: count_correct_def)
  show ?thesis
    using single_epoch_loop_accuracy_and_loss [of example_backward example_model
        example_loader "Some example_optimizer" "''train''" example_world]
      single_epoch_loop_accuracy_and_loss [of example_backward example_model
        example_loader None "''test''" example_world]
      single_epoch_loop_accuracy_and_loss [of "\<lambda>p r xs ls g. Inr g" MyModel_call
        "[([example_input], [1])]" None "''test''" example_world2]
    unfolding example_trace_train example_trace_test example_trace_notebook_model
    by (simp add: total_correct_def total_samples_def last_loss_def c1 example_loader_def
        paired_batch_def)
qed

text \<open>The claim as it was stated has the loop return such a pair for every model, every
  non-empty batch sequence and every mode. Called with the defaults of its two optional
  arguments (no optimizer, mode \<open>train\<close>) the loop raises on the first batch. With an
  optimizer, it raises when the backward pass does, as for a model whose scores do not
  depend on its parameters. It raises when the model refuses the samples (the notebook's
  model, a sample of length 1) and when the loss refuses a label (label 5, two classes).
  On a sequence of one batch without samples it raises the division-by-zero error. And
  for a batch of one sample and two labels, scored with two rows, the first component it
  returns is 2.\<close>

theorem single_epoch_loop_counterexamples:
  "single_epoch_loop example_backward example_model example_loader None ''train'' example_world
     = (Inl AttributeError, example_world)
   \<and> fst (single_epoch_loop failing_backward two_row_model [([1, 1], [0, 0])]
          (Some example_optimizer) ''train'' example_world)
     = Inl RuntimeError
   \<and> fst (single_epoch_loop (\<lambda>p r xs ls g. Inr g) MyModel_call [([[1]], [0])] None ''test''
          example_world2)
     = Inl RuntimeError
   \<and> fst (single_epoch_loop example_backward example_model [([1], [5])] None ''test''
          example_world)
     = Inl IndexError
   \<and> fst (single_epoch_loop example_backward example_model [([], [])] None ''test'' example_world)
     = Inl ZeroDivisionError
   \<and> fst (single_epoch_loop example_backward two_row_model [([1], [0, 0])] None ''test''
          example_world)
     = Inr (2, Finite ((ln (exp 1 + 1) - 1 + (ln (exp 1 + 1) - 1)) / 2))"
proof -
  have f: "fst (single_epoch_loop (\<lambda>p r xs ls g. Inr g) MyModel_call [([[1]], [0])] None ''test''
          example_world2) = Inl RuntimeError"
    by (simp add: single_epoch_loop_def example_world2_def MyModel_forward_def MyModel_eval_def
        example_model2_def MyModel_init_def nn_Linear_def)
  have g: "fst (single_epoch_loop example_backward example_model [([1], [5])] None ''test''
          example_world) = Inl IndexError"
    by (simp add: single_epoch_loop_def example_model_def example_world_def cross_entropy_def)
  have a: "single_epoch_loop example_backward example_model example_loader None ''train''
      example_world = (Inl AttributeError, example_world)"
    by (simp add: single_epoch_loop_def example_loader_def example_model_def example_world_def
        cross_entropy_def backward_pass_def)
  have b: "fst (single_epoch_loop failing_backward two_row_model [([1, 1], [0, 0])]
          (Some example_optimizer) ''train'' example_world) = Inl RuntimeError"
    by (simp add: single_epoch_loop_def two_row_model_def example_world_def failing_backward_def
        example_optimizer_def cross_entropy_def backward_pass_def)
  have c: "fst (single_epoch_loop example_backward example_model [([], [])] None ''test''
      example_world) = Inl ZeroDivisionError"
    by (simp add: single_epoch_loop_def example_model_def example_world_def cross_entropy_def)
  have d: "fst (single_epoch_loop example_backward two_row_model [([1], [0, 0])] None ''test''
          example_world)
     = Inr (2, Finite ((ln (exp 1 + 1) - 1 + (ln (exp 1 + 1) - 1)) / 2))"
    by (simp add: single_epoch_loop_def two_row_model_def example_world_def cross_entropy_def
        count_correct_def)
  show ?thesis using a b c d f g by blast
qed

text \<open>With an optimizer the first of these calls returns, and the parameters have moved.\<close>

lemma example_train_changes_parameters:
  "single_epoch_loop example_backward example_model example_loader (Some example_optimizer)
     ''train'' example_world
   = (Inr (1 / 3, Finite (ln (1 + exp 1))), \<lparr>params = - 1, grads = 1, opt_state = 2, aux = ()\<rparr>)"
  by (simp add: single_epoch_loop_def example_loader_def example_world_def example_model_def
      example_optimizer_def example_backward_def backward_pass_def cross_entropy_def
      count_correct_def)

subsection \<open>Failures\<close>

text \<open>
  Claim C8. Called in mode \<open>train\<close> on a non-empty batch sequence without an optimizer,
  the loop fails while it handles the first batch, whatever the model and the data: when
  the forward pass and the loss of that batch succeed, the failure is the missing
  \<open>zero_grad\<close> attribute of \<open>None\<close>. Parameters, gradients and optimizer state are as
  before.
\<close>

theorem single_epoch_loop_train_without_optimizer:
  "(\<exists>e r'. single_epoch_loop bw model ((smp, lbls) # rest) None ''train'' w = (Inl e, w\<lparr>aux := r'\<rparr>))
   \<and> (model (params w) (aux w) smp = (Inr out, r1) \<and> cross_entropy out lbls = Inr l \<longrightarrow>
        single_epoch_loop bw model ((smp, lbls) # rest) None ''train'' w
          = (Inl AttributeError, w\<lparr>aux := r1\<rparr>))"
  by (auto simp: single_epoch_loop_def backward_pass_def split: prod.splits sum.splits)

theorem single_epoch_loop_train_without_optimizer_witness:
  "example_model (params example_world) (aux example_world) [1, 0] = (Inr [[1, 0], [0, 1]], ())
   \<and> cross_entropy [[1, 0], [0, 1]] [0, 0] = Inr (Finite ((ln (exp 1 + 1) - 1 + ln (1 + exp 1)) / 2))
   \<and> single_epoch_loop example_backward example_model (([1, 0], [0, 0]) # [([1], [0])]) None
       ''train'' example_world
     = (Inl AttributeError, example_world\<lparr>aux := ()\<rparr>)"
proof -
  have m: "example_model (params example_world) (aux example_world) [1, 0] = (Inr [[1, 0], [0, 1]], ())"
    by (simp add: example_model_def example_world_def)
  have ce: "cross_entropy [[1, 0], [0, 1]] [0, 0] = Inr (Finite ((ln (exp 1 + 1) - 1 + ln (1 + exp 1)) / 2))"
    by (simp add: cross_entropy_def)
  from single_epoch_loop_train_without_optimizer
    [of example_backward example_model "[1, 0]" "[0, 0]" "[([1], [0])]" example_world
        "[[1, 0], [0, 1]]" "()" "Finite ((ln (exp 1 + 1) - 1 + ln (1 + exp 1)) / 2)"]
  have "single_epoch_loop example_backward example_model (([1, 0], [0, 0]) # [([1], [0])]) None
       ''train'' example_world = (Inl AttributeError, example_world\<lparr>aux := ()\<rparr>)"
    using m ce by blast
  with m ce show ?thesis by blast
qed

text \<open>
  Claim C9. Given an empty batch sequence the loop returns no value in any mode, with or
  without an optimizer: it raises the division-by-zero error of \<open>n_correct / n_samples\<close>,
  and nothing has changed.
\<close>

theorem single_epoch_loop_empty_loader:
  "single_epoch_loop bw model [] optimizer mode w = (Inl ZeroDivisionError, w)"
  by (simp add: single_epoch_loop_def)

theorem single_epoch_loop_empty_loader_witness:
  "single_epoch_loop example_backward example_model [] (Some example_optimizer) ''train'' example_world
     = (Inl ZeroDivisionError, example_world)
   \<and> single_epoch_loop example_backward example_model [] None ''test'' example_world
     = (Inl ZeroDivisionError, example_world)"
  using single_epoch_loop_empty_loader [of example_backward example_model "Some example_optimizer" "''train''" example_world]
    single_epoch_loop_empty_loader [of example_backward example_model None "''test''" example_world]
  by simp

subsection \<open>Modes other than train\<close>

lemma loop_batches_not_train_frame:
  assumes "mode \<noteq> ''train''"
  shows "params (snd (loop_batches bw model optimizer mode loader acc w)) = params w
       \<and> grads (snd (loop_batches bw model optimizer mode loader acc w)) = grads w
       \<and> opt_state (snd (loop_batches bw model optimizer mode loader acc w)) = opt_state w"
proof (induction loader arbitrary: acc w)
  case Nil
  then show ?case by simp
next
  case (Cons b rest)
  obtain smp lbls where b: "b = (smp, lbls)" by (cases b)
  obtain ns nc loss where acc: "acc = (ns, nc, loss)" by (cases acc)
  show ?case
    using assms Cons.IH by (simp add: b acc split: prod.splits sum.splits)
qed

lemma loop_batches_not_train_indep:
  assumes "mode \<noteq> ''train''"
  shows "loop_batches bw model optimizer mode loader acc w
       = loop_batches bw' model optimizer' mode loader acc w"
proof (induction loader arbitrary: acc w)
  case Nil
  then show ?case by simp
next
  case (Cons b rest)
  obtain smp lbls where b: "b = (smp, lbls)" by (cases b)
  obtain ns nc loss where acc: "acc = (ns, nc, loss)" by (cases acc)
  show ?case
    using assms Cons.IH by (simp add: b acc split: prod.splits sum.splits)
qed

text \<open>
  Claim C10. For every mode string other than \<open>train\<close> the loop leaves the parameters of
  the model, the gradients and the state of the optimizer as they were, and its outcome
  is the same for every differentiation function and every optimizer, present or not: no
  gradient is cleared, no backward pass is run and no optimizer step is taken.
\<close>

theorem single_epoch_loop_not_train_frame:
  assumes "mode \<noteq> ''train''"
  shows "params (snd (single_epoch_loop bw model loader optimizer mode w)) = params w
       \<and> grads (snd (single_epoch_loop bw model loader optimizer mode w)) = grads w
       \<and> opt_state (snd (single_epoch_loop bw model loader optimizer mode w)) = opt_state w
       \<and> single_epoch_loop bw model loader optimizer mode w
           = single_epoch_loop bw' model loader optimizer' mode w"
proof -
  have s: "snd (single_epoch_loop bw model loader optimizer mode w)
      = snd (loop_batches bw model optimizer mode loader (0, 0, None) w)"
    by (simp add: single_epoch_loop_def split: prod.splits sum.splits option.splits)
  have e: "single_epoch_loop bw model loader optimizer mode w
      = single_epoch_loop bw' model loader optimizer' mode w"
    unfolding single_epoch_loop_def
    by (simp only: loop_batches_not_train_indep [OF assms, of bw model optimizer loader _ w bw' optimizer'])
  show ?thesis
    unfolding s using loop_batches_not_train_frame [OF assms] e by (intro conjI) blast+
qed

theorem single_epoch_loop_not_train_frame_witness:
  "''Train'' \<noteq> ''train''
   \<and> params (snd (single_epoch_loop example_backward example_model example_loader
        (Some example_optimizer) ''Train'' example_world)) = params example_world
   \<and> grads (snd (single_epoch_loop example_backward example_model example_loader
        (Some example_optimizer) ''Train'' example_world)) = grads example_world
   \<and> opt_state (snd (single_epoch_loop example_backward example_model example_loader
        (Some example_optimizer) ''Train'' example_world)) = opt_state example_world
   \<and> single_epoch_loop example_backward example_model example_loader
        (Some example_optimizer) ''Train'' example_world
     = single_epoch_loop (\<lambda>p r xs ls g. Inr g) example_model example_loader None ''Train'' example_world"
proof -
  have h: "''Train'' \<noteq> ''train''" by simp
  show ?thesis
    using single_epoch_loop_not_train_frame [OF h, of example_backward example_model example_loader
        "Some example_optimizer" example_world "\<lambda>p r xs ls g. Inr g" None] h
    by blast
qed


section \<open>Properties of the checkpoint\<close>

lemma state_from_keys_ge: "(k, t) \<in> set (state_from i ls) \<Longrightarrow> i \<le> fst k"
proof (induction ls arbitrary: i)
  case Nil
  then show ?case by simp
next
  case (Cons l ls)
  then show ?case by (cases l) (auto dest: Suc_leD)
qed

lemma state_from_distinct: "distinct (map fst (state_from i ls))"
proof (induction ls arbitrary: i)
  case Nil
  show ?case by simp
next
  case (Cons l ls)
  have fresh: "(i, s) \<notin> fst ` set (state_from (Suc i) ls)" for s
    using state_from_keys_ge [of "(i, s)" _ "Suc i" ls] by auto
  show ?case using Cons.IH [of "Suc i"] fresh by (cases l) auto
qed

lemma erase_data_shape: "t\<lparr>data := []\<rparr> = t'\<lparr>data := []\<rparr> \<Longrightarrow> shape t = shape t'"
  by (drule arg_cong [where f = shape]) simp

lemma state_from_arch:
  "map layer_arch ls0 = map layer_arch ls \<Longrightarrow>
   map (\<lambda>(k, t). (k, shape t)) (state_from i ls0) = map (\<lambda>(k, t). (k, shape t)) (state_from i ls)"
proof (induction ls0 arbitrary: ls i)
  case Nil
  then show ?case by simp
next
  case (Cons l0 ls0)
  then obtain l ls' where ls: "ls = l # ls'" and a: "layer_arch l0 = layer_arch l"
    and r: "map layer_arch ls0 = map layer_arch ls'"
    by (cases ls) auto
  have "map (\<lambda>(k, t). (k, shape t)) (layer_state i l0) = map (\<lambda>(k, t). (k, shape t)) (layer_state i l)"
    using a by (cases l0; cases l) (auto dest: erase_data_shape)
  then show ?case using Cons.IH [OF r, of "Suc i"] by (simp add: ls)
qed

lemma map_of_shape:
  "map_option shape (map_of sd k) = map_of (map (\<lambda>(k, t). (k, shape t)) sd) k"
  by (induction sd) auto

lemma load_from_arch:
  assumes "map layer_arch ls0 = map layer_arch ls" and "distinct (map fst sd)"
    and "set (state_from i ls) \<subseteq> set sd"
  shows "load_from sd i ls0 = ls"
  using assms(1,3)
proof (induction ls0 arbitrary: ls i)
  case Nil
  then show ?case by simp
next
  case (Cons l0 ls0)
  then obtain l ls' where ls: "ls = l # ls'" and a: "layer_arch l0 = layer_arch l"
    and r: "map layer_arch ls0 = map layer_arch ls'"
    by (cases ls) auto
  from Cons.prems(2) have sub: "set (layer_state i l) \<subseteq> set sd"
    and sub': "set (state_from (Suc i) ls') \<subseteq> set sd"
    by (simp_all add: ls)
  have "load_layer sd i l0 = l"
  proof (cases l)
    case (Linear p q W c)
    with a obtain W0 c0 where l0: "l0 = Linear p q W0 c0" by (cases l0) auto
    from sub Linear have "map_of sd (i, ''weight'') = Some W" "map_of sd (i, ''bias'') = Some c"
      using assms(2) by (auto intro: map_of_is_SomeI)
    then show ?thesis by (simp add: l0 Linear)
  next
    case ReLU
    with a show ?thesis by (cases l0) auto
  next
    case (Dropout p)
    with a show ?thesis by (cases l0) auto
  qed
  then show ?case using Cons.IH [OF r sub'] by (simp add: ls)
qed

lemma load_state_dict_state_dict:
  assumes "same_architecture m0 m"
  shows "load_state_dict m0 (state_dict m) = Inr (m0\<lparr>net := net m\<rparr>)"
proof -
  let ?sd = "state_from 0 (net m)"
  let ?own = "state_from 0 (net m0)"
  have arch: "map layer_arch (net m0) = map layer_arch (net m)"
    using assms by (simp add: same_architecture_def)
  have sh: "map (\<lambda>(k, t). (k, shape t)) ?own = map (\<lambda>(k, t). (k, shape t)) ?sd"
    by (rule state_from_arch [OF arch])
  have "map fst (map (\<lambda>(k, t). (k, shape t)) ?own) = map fst (map (\<lambda>(k, t). (k, shape t)) ?sd)"
    by (simp only: sh)
  then have keys: "map fst ?own = map fst ?sd"
    by (simp add: case_prod_unfold o_def)
  have shapes: "map_option shape (map_of ?sd k) = Some (shape t)" if "(k, t) \<in> set ?own" for k t
  proof -
    have "map_of ?own k = Some t"
      using that state_from_distinct [of 0 "net m0"] by (rule map_of_is_SomeI [rotated])
    then have "map_option shape (map_of ?own k) = Some (shape t)" by simp
    then show ?thesis by (simp only: map_of_shape sh)
  qed
  have load: "load_from ?sd 0 (net m0) = net m"
    by (rule load_from_arch [OF arch state_from_distinct]) simp
  show ?thesis
    using keys shapes load
    by (auto simp: load_state_dict_def state_dict_def list_ex_iff)
qed

lemma same_architecture_refl: "same_architecture m m"
  by (simp add: same_architecture_def)

text \<open>
  Claim C3. For every path, epoch value, model, optimizer state and best-accuracy value,
  and every serialiser that its deserialiser inverts, loading the checkpoint that the
  saving half has written returns the four stored fields: the stored epoch field (the
  epoch after the last one run), the best accuracy, the optimizer state, and the
  parameters of the saved model, whether they are loaded into that model or into any
  model of the same architecture.
\<close>

theorem checkpoint_round_trip:
  assumes "\<And>c. de (ser c) = Inr c" and "same_architecture model0 model"
  shows "load_checkpoint de path model0 (save_checkpoint ser path epoch model optimizer test_acc fs)
       = Inr \<lparr>loaded_model = model0\<lparr>net := net model\<rparr>, loaded_optimizer = optimizer,
              start_epoch = IntV (epoch + 1), val_acc_prev_best = FloatV test_acc\<rparr>
     \<and> load_checkpoint de path model (save_checkpoint ser path epoch model optimizer test_acc fs)
       = Inr \<lparr>loaded_model = model, loaded_optimizer = optimizer,
              start_epoch = IntV (epoch + 1), val_acc_prev_best = FloatV test_acc\<rparr>"
proof -
  have one: "load_checkpoint de path m0 (save_checkpoint ser path epoch model optimizer test_acc fs)
       = Inr \<lparr>loaded_model = m0\<lparr>net := net model\<rparr>, loaded_optimizer = optimizer,
              start_epoch = IntV (epoch + 1), val_acc_prev_best = FloatV test_acc\<rparr>"
    if "same_architecture m0 model" for m0
    by (simp add: load_checkpoint_def save_checkpoint_def torch_save_def torch_load_def
        assms(1) bind_err_def dict_get_def load_state_dict_state_dict [OF that])
  show ?thesis
    using one [OF assms(2)] one [OF same_architecture_refl] by simp
qed

lemma example_fresh_architecture: "same_architecture example_fresh example_model2"
  by (simp add: same_architecture_def example_fresh_def example_model2_def MyModel_init_def
      nn_Linear_def)

theorem checkpoint_round_trip_witness:
  "same_architecture example_fresh example_model2
   \<and> load_checkpoint Inr ''ckpt.pt'' example_fresh
       (save_checkpoint (\<lambda>c. c) ''ckpt.pt'' 4 example_model2 (3::nat) 0.97 Map.empty)
     = Inr \<lparr>loaded_model = example_fresh\<lparr>net := net example_model2\<rparr>, loaded_optimizer = 3,
            start_epoch = IntV 5, val_acc_prev_best = FloatV 0.97\<rparr>
   \<and> load_checkpoint Inr ''ckpt.pt'' example_model2
       (save_checkpoint (\<lambda>c. c) ''ckpt.pt'' 4 example_model2 (3::nat) 0.97 Map.empty)
     = Inr \<lparr>loaded_model = example_model2, loaded_optimizer = 3,
            start_epoch = IntV 5, val_acc_prev_best = FloatV 0.97\<rparr>"
proof -
  have codec: "\<And>c :: string \<rightharpoonup> nat ckpt_value. (Inr ((\<lambda>c. c) c) :: error + _) = Inr c" by simp
  show ?thesis
    using checkpoint_round_trip [of Inr "\<lambda>c. c" example_fresh example_model2 "''ckpt.pt''" 4 3
        "0.97" Map.empty, OF codec example_fresh_architecture]
      example_fresh_architecture
    by simp
qed

text \<open>Loading from a path that holds no file fails.\<close>

lemma load_checkpoint_missing_file:
  "fs path = None \<Longrightarrow> load_checkpoint de path model fs = Inl FileNotFoundError"
  by (simp add: load_checkpoint_def torch_load_def bind_err_def)



end
